theory Spec2Isabelle
  imports Complex_Main "HOL-Library.Sublist"
begin

section \<open>Python values\<close>

text \<open>
  The topic-map entries are whatever \<^verbatim>\<open>json.loads\<close> produced from the model's answer:
  dictionaries whose values are arbitrary JSON values. A Python \<^verbatim>\<open>str\<close> is a
  \<^typ>\<open>string\<close>, one \<^typ>\<open>char\<close> per character (so the model covers text in the
  Latin-1 range). A Python \<^verbatim>\<open>float\<close> is a finite number, an infinity or NaN; the
  finite ones are kept as exact rationals (every double is one). A \<^verbatim>\<open>dict\<close> is an
  association list read with \<^const>\<open>map_of\<close>.
\<close>

datatype pyfloat = Finite rat | PosInf | NegInf | NaN

datatype json =
    JNull
  | JBool bool
  | JInt int
  | JFloat pyfloat
  | JStr string
  | JList "json list"
  | JDict "(string \<times> json) list"

text \<open>The exceptions that can leave the functions below.\<close>

datatype pyerr =
    ValueError string
  | TypeError
  | AttributeError
  | KeyError
  | IndexError
  | RateLimitError
  | APIError

definition and_then :: "pyerr + 'a \<Rightarrow> ('a \<Rightarrow> pyerr + 'b) \<Rightarrow> pyerr + 'b" where
  "and_then m f = (case m of Inl e \<Rightarrow> Inl e | Inr x \<Rightarrow> f x)"

text \<open>
  What the interpreter decides and the source does not: \<^verbatim>\<open>str()\<close> of a float, a list
  or a dict, and the order in which \<^verbatim>\<open>str()\<close> lists the elements of the two constant
  sets (it follows the hash seed of the process).
\<close>

record py_runtime =
  str_other :: "json \<Rightarrow> string"
  str_VALID_LEVELS :: string
  str_VALID_INTENTS :: string

subsection \<open>Truth value, hashing, equality\<close>

fun py_truthy :: "json \<Rightarrow> bool" where
  "py_truthy JNull = False"
| "py_truthy (JBool b) = b"
| "py_truthy (JInt i) = (i \<noteq> 0)"
| "py_truthy (JFloat f) = (f \<noteq> Finite 0)"
| "py_truthy (JStr s) = (s \<noteq> [])"
| "py_truthy (JList xs) = (xs \<noteq> [])"
| "py_truthy (JDict kvs) = (kvs \<noteq> [])"

text \<open>Lists and dicts have no hash: using one as a set element or looking it up in a set
  raises \<^verbatim>\<open>TypeError\<close>.\<close>

fun hashable :: "json \<Rightarrow> bool" where
  "hashable (JList xs) = False"
| "hashable (JDict kvs) = False"
| "hashable v = True"

fun number_of :: "json \<Rightarrow> pyfloat option" where
  "number_of (JBool b) = Some (Finite (if b then 1 else 0))"
| "number_of (JInt i) = Some (Finite (of_int i))"
| "number_of (JFloat f) = Some f"
| "number_of v = None"

definition float_eq :: "pyfloat \<Rightarrow> pyfloat \<Rightarrow> bool" where
  "float_eq x y = (x \<noteq> NaN \<and> x = y)"

text \<open>
  Python's \<^verbatim>\<open>==\<close>: numbers (booleans included) compare by value, NaN equals nothing,
  containers compare item by item, where an item equals itself by identity before
  \<^verbatim>\<open>==\<close> is asked; \<^verbatim>\<open>json.loads\<close> returns one shared NaN object, so inside a
  container NaN meets NaN by identity.
\<close>

fun py_eq :: "json \<Rightarrow> json \<Rightarrow> bool"
  and py_eq_items :: "json list \<Rightarrow> json list \<Rightarrow> bool" where
  "py_eq (JList xs) (JList ys) = py_eq_items xs ys"
| "py_eq (JDict xs) (JDict ys) =
     (set (map fst xs) = set (map fst ys) \<and>
      list_all (\<lambda>(k, x). map_of xs k = Some x \<longrightarrow>
         (case map_of ys k of None \<Rightarrow> False
          | Some y \<Rightarrow> (x = JFloat NaN \<and> y = JFloat NaN) \<or> py_eq x y)) xs)"
| "py_eq (JStr s) (JStr t) = (s = t)"
| "py_eq JNull JNull = True"
| "py_eq a b =
     (case (number_of a, number_of b) of
        (Some x, Some y) \<Rightarrow> float_eq x y
      | _ \<Rightarrow> False)"
| "py_eq_items [] [] = True"
| "py_eq_items (x # xs) (y # ys) =
     (((x = JFloat NaN \<and> y = JFloat NaN) \<or> py_eq x y) \<and> py_eq_items xs ys)"
| "py_eq_items _ _ = False"

text \<open>\<^verbatim>\<open>x in s\<close> for a set \<^verbatim>\<open>s\<close>: hash \<^verbatim>\<open>x\<close>, then identity or equality.\<close>

definition py_in_set :: "json \<Rightarrow> json list \<Rightarrow> pyerr + bool" where
  "py_in_set x s =
     (if hashable x
      then Inr (list_ex (\<lambda>t. (x = JFloat NaN \<and> t = JFloat NaN) \<or> py_eq x t) s)
      else Inl TypeError)"

subsection \<open>Text\<close>

fun string_of_nat :: "nat \<Rightarrow> string" where
  "string_of_nat n =
     (if n < 10 then [''0123456789'' ! n]
      else string_of_nat (n div 10) @ [''0123456789'' ! (n mod 10)])"

declare string_of_nat.simps [simp del]

definition string_of_int :: "int \<Rightarrow> string" where
  "string_of_int i = (if i < 0 then ''-'' @ string_of_nat (nat (- i)) else string_of_nat (nat i))"

text \<open>\<^verbatim>\<open>str(v)\<close>, as an f-string renders a value.\<close>

definition py_str :: "py_runtime \<Rightarrow> json \<Rightarrow> string" where
  "py_str rt v =
     (case v of
        JStr s \<Rightarrow> s
      | JInt i \<Rightarrow> string_of_int i
      | JBool b \<Rightarrow> (if b then ''True'' else ''False'')
      | JNull \<Rightarrow> ''None''
      | _ \<Rightarrow> str_other rt v)"

text \<open>\<^verbatim>\<open>sub in s\<close> on two strings.\<close>

fun contains :: "string \<Rightarrow> string \<Rightarrow> bool" where
  "contains sub [] = (sub = [])"
| "contains sub (c # cs) = (prefix sub (c # cs) \<or> contains sub cs)"

text \<open>The characters \<^verbatim>\<open>str.strip\<close> removes and the pattern \<^verbatim>\<open>\s\<close> matches.\<close>

definition is_space :: "char \<Rightarrow> bool" where
  "is_space c = (of_char c \<in> set [9, 10, 11, 12, 13, 28, 29, 30, 31, 32, 133, 160 :: nat])"

definition lstrip :: "string \<Rightarrow> string" where
  "lstrip s = dropWhile is_space s"

definition rstrip :: "string \<Rightarrow> string" where
  "rstrip s = rev (dropWhile is_space (rev s))"

definition strip :: "string \<Rightarrow> string" where
  "strip s = rstrip (lstrip s)"

definition startswith :: "string \<Rightarrow> string \<Rightarrow> bool" where
  "startswith s p = (take (length p) s = p)"

definition endswith :: "string \<Rightarrow> string \<Rightarrow> bool" where
  "endswith s p = (length p \<le> length s \<and> drop (length s - length p) s = p)"

definition quote :: string where
  "quote = [CHR 0x27]"

section \<open>models/topic\_map.py\<close>

definition VALID_LEVELS :: "string list" where
  "VALID_LEVELS = [''Pillar'', ''Cluster'', ''Spoke'']"

definition VALID_INTENTS :: "string list" where
  "VALID_INTENTS =
     [''Informational'', ''Navigational'', ''Commercial Investigation'', ''Transactional'']"

definition required_fields :: "string list" where
  "required_fields =
     [''level'', ''content_title'', ''primary_keyword'', ''user_intent'',
      ''semantic_entities'', ''content_type'', ''rag_directions'', ''paa_questions'',
      ''citations'', ''parent_topic'', ''priority_score'', ''word_count_range'',
      ''internal_link_targets'']"

text \<open>\<^verbatim>\<open>f in entry\<close>, \<^verbatim>\<open>entry[key]\<close> and \<^verbatim>\<open>entry.get(key, default)\<close> on whatever
  \<^verbatim>\<open>entry\<close> is: a dict looks the key up, a string tests for a substring, a list for
  an element, anything else is no container; only a dict has \<^verbatim>\<open>get\<close> and takes a
  string between brackets.\<close>

definition py_in :: "string \<Rightarrow> json \<Rightarrow> pyerr + bool" where
  "py_in f entry =
     (case entry of
        JDict kvs \<Rightarrow> Inr (map_of kvs f \<noteq> None)
      | JStr s \<Rightarrow> Inr (contains f s)
      | JList xs \<Rightarrow> Inr (JStr f \<in> set xs)
      | _ \<Rightarrow> Inl TypeError)"

definition entry_item :: "json \<Rightarrow> string \<Rightarrow> pyerr + json" where
  "entry_item entry key =
     (case entry of
        JDict kvs \<Rightarrow> (case map_of kvs key of None \<Rightarrow> Inl KeyError | Some v \<Rightarrow> Inr v)
      | _ \<Rightarrow> Inl TypeError)"

definition entry_get :: "json \<Rightarrow> string \<Rightarrow> json \<Rightarrow> pyerr + json" where
  "entry_get entry key dflt =
     (case entry of
        JDict kvs \<Rightarrow> Inr (case map_of kvs key of None \<Rightarrow> dflt | Some v \<Rightarrow> v)
      | _ \<Rightarrow> Inl AttributeError)"

text \<open>\<^verbatim>\<open>x in S\<close> for one of the two constant sets of strings.\<close>

definition in_str_set :: "json \<Rightarrow> string list \<Rightarrow> pyerr + bool" where
  "in_str_set x S = (if hashable x then Inr (x \<in> set (map JStr S)) else Inl TypeError)"

text \<open>\<^verbatim>\<open>isinstance(v, int)\<close> holds of integers and of booleans, which count 0 and 1.\<close>

fun int_of :: "json \<Rightarrow> int option" where
  "int_of (JInt i) = Some i"
| "int_of (JBool b) = Some (if b then 1 else 0)"
| "int_of v = None"

text \<open>\<^verbatim>\<open>len(v) if isinstance(v, list) else 'non-list'\<close>\<close>

definition len_or_non_list :: "json \<Rightarrow> string" where
  "len_or_non_list v = (case v of JList xs \<Rightarrow> string_of_nat (length xs) | _ \<Rightarrow> ''non-list'')"

definition missing_msg :: "string \<Rightarrow> string" where
  "missing_msg f = ''Missing required field: '' @ f"

fun missing_loop :: "json \<Rightarrow> string list \<Rightarrow> pyerr + string list" where
  "missing_loop entry [] = Inr []"
| "missing_loop entry (f # fs) =
     and_then (py_in f entry) (\<lambda>present.
     and_then (missing_loop entry fs) (\<lambda>errors.
     Inr (if present then errors else missing_msg f # errors)))"

definition level_msg :: "py_runtime \<Rightarrow> json \<Rightarrow> string" where
  "level_msg rt level =
     ''Invalid level '' @ quote @ py_str rt level @ quote @ ''. Must be one of: ''
       @ str_VALID_LEVELS rt"

definition intent_msg :: "py_runtime \<Rightarrow> json \<Rightarrow> string" where
  "intent_msg rt intent =
     ''Invalid user_intent '' @ quote @ py_str rt intent @ quote @ ''. Must be one of: ''
       @ str_VALID_INTENTS rt"

definition score_msg :: "py_runtime \<Rightarrow> json \<Rightarrow> string" where
  "score_msg rt score =
     ''Invalid priority_score '' @ quote @ py_str rt score @ quote @ ''. Must be integer 1-5''"

definition check_level :: "py_runtime \<Rightarrow> json \<Rightarrow> pyerr + string list" where
  "check_level rt entry =
     and_then (entry_item entry ''level'') (\<lambda>level.
     and_then (in_str_set level VALID_LEVELS) (\<lambda>valid.
     Inr (if valid then [] else [level_msg rt level])))"

definition check_user_intent :: "py_runtime \<Rightarrow> json \<Rightarrow> pyerr + string list" where
  "check_user_intent rt entry =
     and_then (entry_item entry ''user_intent'') (\<lambda>intent.
     and_then (in_str_set intent VALID_INTENTS) (\<lambda>valid.
     Inr (if valid then [] else [intent_msg rt intent])))"

text \<open>\<^verbatim>\<open>not isinstance(score, int) or score < 1 or score > 5\<close>\<close>

definition score_errors :: "py_runtime \<Rightarrow> json \<Rightarrow> string list" where
  "score_errors rt score =
     (case int_of score of
        None \<Rightarrow> [score_msg rt score]
      | Some n \<Rightarrow> if n < 1 \<or> n > 5 then [score_msg rt score] else [])"

definition check_priority_score :: "py_runtime \<Rightarrow> json \<Rightarrow> pyerr + string list" where
  "check_priority_score rt entry =
     and_then (entry_get entry ''priority_score'' (JInt 0)) (\<lambda>score.
     Inr (score_errors rt score))"

definition entities_errors :: "json \<Rightarrow> string list" where
  "entities_errors entities =
     (if (case entities of JList xs \<Rightarrow> length xs < 3 \<or> length xs > 5 | _ \<Rightarrow> True)
      then [''semantic_entities must have 3-5 items, got '' @ len_or_non_list entities]
      else [])"

definition check_semantic_entities :: "json \<Rightarrow> pyerr + string list" where
  "check_semantic_entities entry =
     and_then (entry_get entry ''semantic_entities'' (JList [])) (\<lambda>entities.
     Inr (entities_errors entities))"

definition paa_errors :: "json \<Rightarrow> string list" where
  "paa_errors paa =
     (if (case paa of JList xs \<Rightarrow> length xs < 2 | _ \<Rightarrow> True)
      then [''paa_questions must have at least 2 items, got '' @ len_or_non_list paa]
      else [])"

definition check_paa_questions :: "json \<Rightarrow> pyerr + string list" where
  "check_paa_questions entry =
     and_then (entry_get entry ''paa_questions'' (JList [])) (\<lambda>paa.
     Inr (paa_errors paa))"

definition citations_errors :: "json \<Rightarrow> string list" where
  "citations_errors citations =
     (if (case citations of JList xs \<Rightarrow> length xs < 1 | _ \<Rightarrow> True)
      then [''citations must have at least 1 item, got '' @ len_or_non_list citations]
      else [])"

definition check_citations :: "json \<Rightarrow> pyerr + string list" where
  "check_citations entry =
     and_then (entry_get entry ''citations'' (JList [])) (\<lambda>citations.
     Inr (citations_errors citations))"

definition validate_entry :: "py_runtime \<Rightarrow> json \<Rightarrow> pyerr + string list" where
  "validate_entry rt entry =
     and_then (missing_loop entry required_fields) (\<lambda>errors.
     if errors \<noteq> [] then Inr errors
     else
       and_then (check_level rt entry) (\<lambda>e1.
       and_then (check_user_intent rt entry) (\<lambda>e2.
       and_then (check_priority_score rt entry) (\<lambda>e3.
       and_then (check_semantic_entities entry) (\<lambda>e4.
       and_then (check_paa_questions entry) (\<lambda>e5.
       and_then (check_citations entry) (\<lambda>e6.
       Inr (e1 @ e2 @ e3 @ e4 @ e5 @ e6))))))))"

definition entry_prefix :: "py_runtime \<Rightarrow> nat \<Rightarrow> json \<Rightarrow> string" where
  "entry_prefix rt i title = ''Entry '' @ string_of_nat i @ '' ('' @ py_str rt title @ ''): ''"

text \<open>The inner loop of \<^verbatim>\<open>validate_topic_map\<close>: one prefixed message per error of the
  entry; \<^verbatim>\<open>entry.get\<close> is asked once per message.\<close>

fun prefix_loop :: "py_runtime \<Rightarrow> nat \<Rightarrow> json \<Rightarrow> string list \<Rightarrow> pyerr + string list" where
  "prefix_loop rt i entry [] = Inr []"
| "prefix_loop rt i entry (err # errs) =
     and_then (entry_get entry ''content_title'' (JStr ''unknown'')) (\<lambda>title.
     and_then (prefix_loop rt i entry errs) (\<lambda>rest.
     Inr ((entry_prefix rt i title @ err) # rest)))"

text \<open>The outer loop, \<^verbatim>\<open>for i, entry in enumerate(entries)\<close>, from index \<open>i\<close> on.\<close>

fun entries_loop :: "py_runtime \<Rightarrow> nat \<Rightarrow> json list \<Rightarrow> pyerr + string list" where
  "entries_loop rt i [] = Inr []"
| "entries_loop rt i (entry # rest) =
     and_then (validate_entry rt entry) (\<lambda>entry_errors.
     and_then (prefix_loop rt i entry entry_errors) (\<lambda>msgs.
     and_then (entries_loop rt (Suc i) rest) (\<lambda>more.
     Inr (msgs @ more))))"

text \<open>\<^verbatim>\<open>[e for e in entries if e["level"] == name]\<close>\<close>

fun with_level :: "string \<Rightarrow> json list \<Rightarrow> pyerr + json list" where
  "with_level name [] = Inr []"
| "with_level name (e # es) =
     and_then (entry_item e ''level'') (\<lambda>level.
     and_then (with_level name es) (\<lambda>rest.
     Inr (if py_eq level (JStr name) then e # rest else rest)))"

text \<open>\<^verbatim>\<open>{c["content_title"] for c in clusters}\<close>: every title is hashed.\<close>

fun title_set :: "json list \<Rightarrow> pyerr + json list" where
  "title_set [] = Inr []"
| "title_set (c # cs) =
     and_then (entry_item c ''content_title'') (\<lambda>title.
     if \<not> hashable title then Inl TypeError
     else and_then (title_set cs) (\<lambda>rest. Inr (title # rest)))"

definition cluster_msg :: "py_runtime \<Rightarrow> json \<Rightarrow> json \<Rightarrow> json \<Rightarrow> string" where
  "cluster_msg rt title parent pillar_title =
     ''Cluster '' @ quote @ py_str rt title @ quote @ '' parent_topic '' @ quote
       @ py_str rt parent @ quote @ '' does not match Pillar title '' @ quote
       @ py_str rt pillar_title @ quote"

definition spoke_msg :: "py_runtime \<Rightarrow> json \<Rightarrow> json \<Rightarrow> string" where
  "spoke_msg rt title parent =
     ''Spoke '' @ quote @ py_str rt title @ quote @ '' parent_topic '' @ quote
       @ py_str rt parent @ quote @ '' does not match any Cluster title''"

fun cluster_loop :: "py_runtime \<Rightarrow> json \<Rightarrow> json list \<Rightarrow> pyerr + string list" where
  "cluster_loop rt pillar_title [] = Inr []"
| "cluster_loop rt pillar_title (cluster # cs) =
     and_then (entry_get cluster ''parent_topic'' (JStr [])) (\<lambda>parent.
     and_then (if py_truthy parent \<and> \<not> py_eq parent pillar_title
               then and_then (entry_item cluster ''content_title'') (\<lambda>title.
                    Inr [cluster_msg rt title parent pillar_title])
               else Inr []) (\<lambda>msgs.
     and_then (cluster_loop rt pillar_title cs) (\<lambda>rest.
     Inr (msgs @ rest))))"

fun spoke_loop :: "py_runtime \<Rightarrow> json list \<Rightarrow> json list \<Rightarrow> pyerr + string list" where
  "spoke_loop rt cluster_titles [] = Inr []"
| "spoke_loop rt cluster_titles (spoke # ss) =
     and_then (entry_get spoke ''parent_topic'' (JStr [])) (\<lambda>parent.
     and_then (if py_truthy parent
               then and_then (py_in_set parent cluster_titles) (\<lambda>found.
                    if found then Inr []
                    else and_then (entry_item spoke ''content_title'') (\<lambda>title.
                         Inr [spoke_msg rt title parent]))
               else Inr []) (\<lambda>msgs.
     and_then (spoke_loop rt cluster_titles ss) (\<lambda>rest.
     Inr (msgs @ rest))))"

definition pillar_count_msg :: "nat \<Rightarrow> string" where
  "pillar_count_msg n = ''Expected exactly 1 Pillar, found '' @ string_of_nat n"

definition validate_topic_map :: "py_runtime \<Rightarrow> json list \<Rightarrow> pyerr + string list" where
  "validate_topic_map rt entries =
     and_then (entries_loop rt 0 entries) (\<lambda>errors.
     if errors \<noteq> [] then Inr errors
     else
       and_then (with_level ''Pillar'' entries) (\<lambda>pillars.
       and_then (with_level ''Cluster'' entries) (\<lambda>clusters.
       and_then (with_level ''Spoke'' entries) (\<lambda>spokes.
       case pillars of
         [pillar] \<Rightarrow>
           and_then (entry_item pillar ''content_title'') (\<lambda>pillar_title.
           and_then (title_set clusters) (\<lambda>cluster_titles.
           and_then (cluster_loop rt pillar_title clusters) (\<lambda>cluster_errors.
           and_then (spoke_loop rt cluster_titles spokes) (\<lambda>spoke_errors.
           Inr (cluster_errors @ spoke_errors)))))
       | _ \<Rightarrow> Inr [pillar_count_msg (length pillars)]))))"

text \<open>
  The per-entry conditions as the specification lists them (section 4.2): all thirteen
  fields, a valid level and intent, an integer score from 1 to 5, three to five
  entities, two questions, one citation. It is compared with \<^const>\<open>validate_entry\<close> below.
\<close>

definition passes_entry_checks :: "json \<Rightarrow> bool" where
  "passes_entry_checks entry =
     (case entry of
        JDict kvs \<Rightarrow>
          (\<forall>f\<in>set required_fields. map_of kvs f \<noteq> None)
          \<and> (case map_of kvs ''level'' of
                Some (JStr s) \<Rightarrow> s \<in> set VALID_LEVELS | _ \<Rightarrow> False)
          \<and> (case map_of kvs ''user_intent'' of
                Some (JStr s) \<Rightarrow> s \<in> set VALID_INTENTS | _ \<Rightarrow> False)
          \<and> (case map_of kvs ''priority_score'' of
                Some (JInt n) \<Rightarrow> 1 \<le> n \<and> n \<le> 5 | _ \<Rightarrow> False)
          \<and> (case map_of kvs ''semantic_entities'' of
                Some (JList xs) \<Rightarrow> 3 \<le> length xs \<and> length xs \<le> 5 | _ \<Rightarrow> False)
          \<and> (case map_of kvs ''paa_questions'' of
                Some (JList xs) \<Rightarrow> 2 \<le> length xs | _ \<Rightarrow> False)
          \<and> (case map_of kvs ''citations'' of
                Some (JList xs) \<Rightarrow> 1 \<le> length xs | _ \<Rightarrow> False)
      | _ \<Rightarrow> False)"

section \<open>services/ai\_service.py\<close>

subsection \<open>Cleaning and decoding\<close>

text \<open>
  \<^verbatim>\<open>re.sub(r"^```(?:json)?\s*\n?", "", text)\<close>: the pattern only matches at the start of
  the text; after the three backquotes it takes \<^verbatim>\<open>json\<close> when it is there and then
  all the white space that follows.
\<close>

definition sub_open_fence :: "string \<Rightarrow> string" where
  "sub_open_fence s =
     (if startswith s ''```'' then
        (let r = drop 3 s;
             r' = (if startswith r ''json'' then drop 4 r else r)
         in dropWhile is_space r')
      else s)"

text \<open>
  \<^verbatim>\<open>re.sub(r"\n?```\s*$", "", text)\<close>: a match is three backquotes with nothing but white
  space after them up to the end of the text, together with one line feed directly
  before them when there is one (the leftmost match starts there).
\<close>

definition sub_close_fence :: "string \<Rightarrow> string" where
  "sub_close_fence s =
     (let r = rstrip s in
      if endswith r ''```'' then
        (let b = take (length r - 3) r in
         if b \<noteq> [] \<and> last b = CHR 0x0A then butlast b else b)
      else s)"

text \<open>
  \<^verbatim>\<open>re.sub(r",\s*([\]}])", r"\1", text)\<close>, scanning from the left: a comma followed by
  white space and a closing bracket or brace is replaced by that closer, and the scan
  goes on after it.
\<close>

function sub_trailing_commas :: "string \<Rightarrow> string" where
  "sub_trailing_commas [] = []"
| "sub_trailing_commas (c # cs) =
     (if c = CHR '','' then
        (case dropWhile is_space cs of
           [] \<Rightarrow> c # sub_trailing_commas cs
         | d # ds \<Rightarrow>
             if d = CHR '']'' \<or> d = CHR ''}'' then d # sub_trailing_commas ds
             else c # sub_trailing_commas cs)
      else c # sub_trailing_commas cs)"
  by pat_completeness auto
termination
proof (relation "measure length")
  fix c :: char and cs ds :: string and d :: char
  assume "dropWhile is_space cs = d # ds"
  then have "length (d # ds) \<le> length cs"
    using length_dropWhile_le [of is_space cs] by simp
  then show "(ds, c # cs) \<in> measure length" by simp
qed simp_all

definition clean_json_response :: "string \<Rightarrow> string" where
  "clean_json_response text =
     sub_trailing_commas (strip (sub_close_fence (sub_open_fence (strip text))))"

text \<open>
  The services the module calls and the constants it imports: \<^verbatim>\<open>json.loads\<close> (the
  message of its \<^verbatim>\<open>JSONDecodeError\<close> on the left, the decoded value on the right),
  the Anthropic client (asked with the number of requests made before, the system
  prompt and the user message; model, token limit and temperature are constants), the
  API key, and the two long prompt texts of \<^verbatim>\<open>prompts/topic_map_prompts.py\<close>, the user
  prompt as the function of the nine values its \<^verbatim>\<open>format\<close> call receives.
\<close>

datatype api_reply = Text string | RateLimited | Failed

record env =
  runtime :: py_runtime
  json_loads :: "string \<Rightarrow> string + json"
  messages_create :: "nat \<Rightarrow> string \<Rightarrow> string \<Rightarrow> api_reply"
  ANTHROPIC_API_KEY :: string
  TOPIC_MAP_SYSTEM_PROMPT :: string
  TOPIC_MAP_USER_PROMPT_format :: "string list \<Rightarrow> string"

definition parse_json :: "env \<Rightarrow> string \<Rightarrow> json list option" where
  "parse_json env text =
     (case json_loads env (clean_json_response text) of
        Inr (JList data) \<Rightarrow> Some data
      | Inr _ \<Rightarrow> None
      | Inl _ \<Rightarrow> None)"

subsection \<open>Calling the model\<close>

text \<open>What a run leaves behind: the number of API requests, the user message of every
  \<^verbatim>\<open>_call_claude\<close> in order, and the seconds slept.\<close>

record call_state =
  requests :: nat
  calls :: "string list"
  sleeps :: "nat list"

fun attempt_loop ::
  "env \<Rightarrow> string \<Rightarrow> string \<Rightarrow> nat list \<Rightarrow> call_state \<Rightarrow> (pyerr + string) \<times> call_state" where
  "attempt_loop env system msg [] st = (Inr [], st)"
| "attempt_loop env system msg (attempt # later) st =
     (let st1 = st\<lparr>requests := Suc (requests st)\<rparr> in
      case messages_create env (requests st) system msg of
        Text t \<Rightarrow> (Inr t, st1)
      | RateLimited \<Rightarrow>
          if attempt < 2
          then attempt_loop env system msg later (st1\<lparr>sleeps := sleeps st1 @ [2 ^ (attempt + 1)]\<rparr>)
          else (Inl RateLimitError, st1)
      | Failed \<Rightarrow> (Inl APIError, st1))"

definition call_claude ::
  "env \<Rightarrow> string \<Rightarrow> string \<Rightarrow> call_state \<Rightarrow> (pyerr + string) \<times> call_state" where
  "call_claude env system msg st =
     attempt_loop env system msg [0, 1, 2] (st\<lparr>calls := calls st @ [msg]\<rparr>)"

subsection \<open>Prompts\<close>

definition NL :: string where
  "NL = [CHR 0x0A]"

definition JSON_FIX_PROMPT_format :: "string \<Rightarrow> string \<Rightarrow> string" where
  "JSON_FIX_PROMPT_format error output =
     ''The following JSON was returned but failed to parse. Please fix it so it is valid JSON. ''
     @ ''Return ONLY the corrected JSON array with no markdown fences or commentary.''
     @ NL @ NL @ ''Error: '' @ error @ NL @ NL @ ''Original output:'' @ NL @ output"

definition CONTINUATION_PROMPT_format :: "string \<Rightarrow> string" where
  "CONTINUATION_PROMPT_format last_chunk =
     ''The previous response was truncated. Continue the JSON array from exactly where it ''
     @ ''left off. Do NOT repeat any entries already generated. Output ONLY the continuation ''
     @ ''of the JSON array, starting from the next entry and ending with the closing bracket ].''
     @ NL @ NL @ ''Previous output ended with:'' @ NL @ last_chunk"

definition SCOPE_FOCUSED :: string where
  "SCOPE_FOCUSED = ''Focused (15-25 topics)''"

record gen_args =
  topic :: string
  scope :: string
  industry :: string
  audience :: string
  geo_focus :: string
  competitors :: string
  existing_content :: string
  compiled_research :: string

definition or_default :: "string \<Rightarrow> string \<Rightarrow> string" where
  "or_default s d = (if s = [] then d else s)"

definition user_prompt :: "env \<Rightarrow> gen_args \<Rightarrow> string" where
  "user_prompt env a =
     TOPIC_MAP_USER_PROMPT_format env
       [topic a, scope a,
        or_default (industry a) ''Not specified'',
        or_default (audience a) ''Not specified'',
        or_default (geo_focus a) ''Not specified'',
        or_default (competitors a) ''None provided'',
        or_default (existing_content a) ''None provided'',
        compiled_research a,
        (if scope a = SCOPE_FOCUSED then ''15-25'' else ''40-75'')]"

subsection \<open>generate\_topic\_map\<close>

definition parse_failed_msg :: string where
  "parse_failed_msg =
     ''Failed to parse Claude'' @ quote @ ''s response as valid JSON after retry. ''
     @ ''Please try generating again.''"

text \<open>Lines 109 to 128: the first decoding, the repair call, the parse failure.\<close>

definition parse_with_repair ::
  "env \<Rightarrow> string \<Rightarrow> call_state \<Rightarrow> (pyerr + json list) \<times> call_state" where
  "parse_with_repair env raw_response st =
     (case parse_json env raw_response of
        Some entries \<Rightarrow> (Inr entries, st)
      | None \<Rightarrow>
          (case json_loads env (clean_json_response raw_response) of
             Inl e \<Rightarrow>
               (case call_claude env (TOPIC_MAP_SYSTEM_PROMPT env)
                       (JSON_FIX_PROMPT_format e (take 8000 raw_response)) st of
                  (Inl err, st1) \<Rightarrow> (Inl err, st1)
                | (Inr fix_response, st1) \<Rightarrow>
                    (case parse_json env fix_response of
                       Some entries \<Rightarrow> (Inr entries, st1)
                     | None \<Rightarrow> (Inl (ValueError parse_failed_msg), st1)))
           | Inr _ \<Rightarrow> (Inl (ValueError parse_failed_msg), st)))"

text \<open>\<^verbatim>\<open>s.rfind(c)\<close>: the index of the last \<open>c\<close>, or \<open>-1\<close>.\<close>

fun rfind :: "string \<Rightarrow> char \<Rightarrow> int" where
  "rfind [] c = - 1"
| "rfind (x # xs) c =
     (let r = rfind xs c in
      if r \<ge> 0 then r + 1 else if x = c then 0 else - 1)"

text \<open>Lines 141 to 154: the salvage of the original answer and the merge.\<close>

definition salvage :: "env \<Rightarrow> string \<Rightarrow> json list \<Rightarrow> json list \<Rightarrow> json list" where
  "salvage env raw_response entries continuation_entries =
     (let truncated = clean_json_response raw_response;
          last_brace = rfind truncated (CHR ''}'')
      in if last_brace > 0 then
           (case json_loads env (take (nat (last_brace + 1)) truncated @ '']'') of
              Inr (JList base_entries) \<Rightarrow> base_entries @ continuation_entries
            | Inr _ \<Rightarrow> entries
            | Inl _ \<Rightarrow>
                if length continuation_entries > 10 then continuation_entries else entries)
         else entries)"

text \<open>Lines 130 to 154. \<^verbatim>\<open>raw_response.rstrip()[-1]\<close> raises on the empty string.\<close>

definition continue_if_truncated ::
  "env \<Rightarrow> string \<Rightarrow> json list \<Rightarrow> call_state \<Rightarrow> (pyerr + json list) \<times> call_state" where
  "continue_if_truncated env raw_response entries st =
     (if rstrip raw_response = [] then (Inl IndexError, st)
      else if last (rstrip raw_response) \<noteq> CHR '']'' then
        (case call_claude env (TOPIC_MAP_SYSTEM_PROMPT env)
                (CONTINUATION_PROMPT_format
                   (drop (length raw_response - 500) raw_response)) st of
           (Inl err, st1) \<Rightarrow> (Inl err, st1)
         | (Inr continuation, st1) \<Rightarrow>
             (case parse_json env continuation of
                None \<Rightarrow> (Inr entries, st1)
              | Some continuation_entries \<Rightarrow>
                  if continuation_entries \<noteq> []
                  then (Inr (salvage env raw_response entries continuation_entries), st1)
                  else (Inr entries, st1)))
      else (Inr entries, st))"

definition is_critical :: "string \<Rightarrow> bool" where
  "is_critical e =
     (contains ''Missing required field'' e \<or> contains ''Expected exactly 1 Pillar'' e)"

text \<open>\<^verbatim>\<open>sep.join(xs)\<close>\<close>

fun join :: "string \<Rightarrow> string list \<Rightarrow> string" where
  "join sep [] = []"
| "join sep [x] = x"
| "join sep (x # y # ys) = x @ sep @ join sep (y # ys)"

definition validation_failed_msg :: "string list \<Rightarrow> string" where
  "validation_failed_msg critical_errors =
     ''Topic map validation failed:'' @ NL @ join NL (take 10 critical_errors)"

text \<open>Lines 156 to 170: the empty result, the validation, the critical errors.\<close>

definition validate_and_return :: "py_runtime \<Rightarrow> json list \<Rightarrow> pyerr + json list" where
  "validate_and_return rt entries =
     (if entries = [] then Inl (ValueError ''No topic map entries were generated.'')
      else
        and_then (validate_topic_map rt entries) (\<lambda>errors.
        if errors \<noteq> [] then
          (let critical_errors = filter is_critical errors in
           if critical_errors \<noteq> []
           then Inl (ValueError (validation_failed_msg critical_errors))
           else Inr entries)
        else Inr entries))"

definition generate_topic_map ::
  "env \<Rightarrow> gen_args \<Rightarrow> call_state \<Rightarrow> (pyerr + json list) \<times> call_state" where
  "generate_topic_map env a st =
     (if ANTHROPIC_API_KEY env = []
      then (Inl (ValueError ''ANTHROPIC_API_KEY is not configured.''), st)
      else
        (case call_claude env (TOPIC_MAP_SYSTEM_PROMPT env) (user_prompt env a) st of
           (Inl err, st1) \<Rightarrow> (Inl err, st1)
         | (Inr raw_response, st1) \<Rightarrow>
             (case parse_with_repair env raw_response st1 of
                (Inl err, st2) \<Rightarrow> (Inl err, st2)
              | (Inr entries, st2) \<Rightarrow>
                  (case continue_if_truncated env raw_response entries st2 of
                     (Inl err, st3) \<Rightarrow> (Inl err, st3)
                   | (Inr merged, st3) \<Rightarrow>
                       (validate_and_return (runtime env) merged, st3)))))"

section \<open>Example data\<close>

text \<open>One interpreter: \<^verbatim>\<open>str()\<close> of the empty list and dict, one order of the two sets.\<close>

definition example_rt :: py_runtime where
  "example_rt =
     \<lparr>str_other = (\<lambda>v. if v = JList [] then ''[]'' else if v = JDict [] then ''{}'' else ''...''),
      str_VALID_LEVELS =
        ''{'' @ quote @ ''Pillar'' @ quote @ '', '' @ quote @ ''Cluster'' @ quote @ '', ''
          @ quote @ ''Spoke'' @ quote @ ''}'',
      str_VALID_INTENTS =
        ''{'' @ quote @ ''Informational'' @ quote @ '', '' @ quote @ ''Navigational'' @ quote
          @ '', '' @ quote @ ''Commercial Investigation'' @ quote @ '', '' @ quote
          @ ''Transactional'' @ quote @ ''}''\<rparr>"

text \<open>An entry with all thirteen fields; level, title, parent and score are chosen.\<close>

definition example_fields :: "json \<Rightarrow> json \<Rightarrow> json \<Rightarrow> json \<Rightarrow> (string \<times> json) list" where
  "example_fields level title parent score =
     [(''level'', level), (''content_title'', title),
      (''primary_keyword'', JStr ''seo''), (''user_intent'', JStr ''Informational''),
      (''semantic_entities'', JList [JStr ''a'', JStr ''b'', JStr ''c'']),
      (''content_type'', JStr ''Explainer''), (''rag_directions'', JStr ''lead''),
      (''paa_questions'', JList [JStr ''q1'', JStr ''q2'']),
      (''citations'', JList [JStr ''c1'']), (''parent_topic'', parent),
      (''priority_score'', score), (''word_count_range'', JStr ''1000-2000''),
      (''internal_link_targets'', JList [])]"

definition example_entry :: "json \<Rightarrow> json \<Rightarrow> json \<Rightarrow> json \<Rightarrow> json" where
  "example_entry level title parent score = JDict (example_fields level title parent score)"

text \<open>\<^verbatim>\<open>json.loads\<close> on the texts the examples use; every other text counts as
  undecodable here.\<close>

definition example_loads :: "string \<Rightarrow> string + json" where
  "example_loads s =
     (if s = ''[{\"a\":1}]'' then Inr (JList [JDict [(''a'', JInt 1)]])
      else if s = ''[{\"c\":3}]'' then Inr (JList [JDict [(''c'', JInt 3)]])
      else if s = ''[{\"a\":1} ]'' then Inr (JList [JDict [(''a'', JInt 1)]])
      else if s = ''[{\"a\":1},5]'' then Inr (JList [JDict [(''a'', JInt 1)], JInt 5])
      else if s = ''[]'' then Inr (JList [])
      else if s = ''{\"a\":1}'' then Inr (JDict [(''a'', JInt 1)])
      else if s = ''[{\"level\":\"Pillar\"}]''
        then Inr (JList [JDict [(''level'', JStr ''Pillar'')]])
      else if s = ''[{\"a\":1},{\"b\"''
        then Inl (''Expecting '' @ quote @ '':'' @ quote
                    @ '' delimiter: line 1 column 14 (char 13)'')
      else Inl ''Expecting value: line 1 column 1 (char 0)'')"

text \<open>A client that answers the \<open>n\<close>-th request with the \<open>n\<close>-th scripted reply.\<close>

definition example_env :: "api_reply list \<Rightarrow> env" where
  "example_env replies =
     \<lparr>runtime = example_rt,
      json_loads = example_loads,
      messages_create = (\<lambda>n system msg. if n < length replies then replies ! n else Failed),
      ANTHROPIC_API_KEY = ''sk-test'',
      TOPIC_MAP_SYSTEM_PROMPT = ''system'',
      TOPIC_MAP_USER_PROMPT_format = concat\<rparr>"

definition example_args :: gen_args where
  "example_args =
     \<lparr>topic = ''Content Marketing'', scope = SCOPE_FOCUSED, industry = [], audience = [],
      geo_focus = [], competitors = [], existing_content = [], compiled_research = ''notes''\<rparr>"

definition st0 :: call_state where
  "st0 = \<lparr>requests = 0, calls = [], sleeps = []\<rparr>"

section \<open>Properties of the cleaning step\<close>

lemma dropWhile_append_cases:
  "dropWhile P (xs @ ys) = (if dropWhile P xs = [] then dropWhile P ys else dropWhile P xs @ ys)"
  by (induction xs) auto

lemma not_space_comma [simp]: "\<not> is_space (CHR '','')" "\<not> is_space (CHR '']'')" "\<not> is_space (CHR ''}'')" "\<not> is_space (CHR 0x60)"
  "is_space (CHR 0x0A)"
  by (simp_all add: is_space_def)

lemma sub_trailing_commas_closer:
  "b = CHR '']'' \<or> b = CHR ''}'' \<Longrightarrow>
   sub_trailing_commas (xs @ CHR '','' # b # ys) = sub_trailing_commas xs @ b # sub_trailing_commas ys"
proof (induction xs rule: sub_trailing_commas.induct)
  case 1
  then show ?case by auto
next
  case (2 c cs)
  show ?case
  proof (cases "c = CHR '',''")
    case False
    with 2 show ?thesis by simp
  next
    case True
    show ?thesis
    proof (cases "dropWhile is_space cs")
      case Nil
      with True 2 show ?thesis
        by (simp add: dropWhile_append_cases del: dropWhile_eq_Nil_conv)
    next
      case (Cons d ds)
      with True 2 show ?thesis
        by (simp add: dropWhile_append_cases del: dropWhile_eq_Nil_conv)
    qed
  qed
qed

lemma strip_fixed_ends:
  assumes "strip body = body"
  shows "dropWhile is_space body = body" "rstrip body = body"
proof -
  have 1: "rstrip (lstrip body) = body" using assms by (simp add: strip_def)
  show a: "dropWhile is_space body = body"
  proof (cases body)
    case Nil then show ?thesis by simp
  next
    case (Cons c cs)
    show ?thesis
    proof (rule ccontr)
      assume "dropWhile is_space body \<noteq> body"
      then have "is_space c" using Cons by (auto split: if_splits)
      then have "length (dropWhile is_space body) < length body"
        using Cons length_dropWhile_le [of is_space cs] by simp
      moreover have "length (rstrip (lstrip body)) \<le> length (lstrip body)"
        using length_dropWhile_le [of is_space "rev (lstrip body)"] by (simp add: rstrip_def)
      ultimately show False using 1 by (simp add: lstrip_def)
    qed
  qed
  show "rstrip body = body" using 1 a by (simp add: lstrip_def)
qed

lemma rstrip_snoc [simp]: "\<not> is_space c \<Longrightarrow> rstrip (xs @ [c]) = xs @ [c]"
  by (simp add: rstrip_def)

lemma clean_fenced:
  assumes "strip body = body"
  shows "clean_json_response (''```json'' @ NL @ body @ NL @ ''```'') = sub_trailing_commas body"
    and "clean_json_response (''```'' @ NL @ body @ NL @ ''```'') = sub_trailing_commas body"
proof -
  note b = strip_fixed_ends [OF assms]
  have r: "rstrip (xs @ ''```'') = xs @ ''```''" for xs
    using rstrip_snoc [of "CHR 0x60" "xs @ [CHR 0x60, CHR 0x60]"] by simp
  have close0: "sub_close_fence (xs @ NL @ ''```'') = xs" for xs
    using r [of "xs @ NL"] by (simp add: sub_close_fence_def endswith_def NL_def Let_def butlast_append)
  have close1: "sub_close_fence ''```'' = []"
    using r [of "[]"] by (simp add: sub_close_fence_def endswith_def Let_def)
  have dw: "sub_close_fence (dropWhile is_space (NL @ body @ NL @ ''```'')) = body"
  proof (cases body)
    case Nil
    then show ?thesis using close1 by (simp add: NL_def)
  next
    case (Cons c cs)
    then have "\<not> is_space c" using b(1) hd_dropWhile [of is_space body] by auto
    then show ?thesis using close0 [of body] Cons by (simp add: NL_def)
  qed
  have s: "strip (''```'' @ xs @ ''```'') = ''```'' @ xs @ ''```''" for xs
    using r [of "''```'' @ xs"] by (simp add: strip_def lstrip_def)
  have o1: "sub_open_fence (''```json'' @ NL @ body @ NL @ ''```'')
              = dropWhile is_space (NL @ body @ NL @ ''```'')"
    by (simp add: sub_open_fence_def startswith_def)
  have o2: "sub_open_fence (''```'' @ NL @ body @ NL @ ''```'')
              = dropWhile is_space (NL @ body @ NL @ ''```'')"
    by (simp add: sub_open_fence_def startswith_def NL_def)
  show "clean_json_response (''```json'' @ NL @ body @ NL @ ''```'') = sub_trailing_commas body"
    using s [of "''json'' @ NL @ body @ NL"] o1 dw assms
    by (simp add: clean_json_response_def)
  show "clean_json_response (''```'' @ NL @ body @ NL @ ''```'') = sub_trailing_commas body"
    using s [of "NL @ body @ NL"] o2 dw assms
    by (simp add: clean_json_response_def)
qed

text \<open>
  Claim C7. Cleaning the fenced text \<^verbatim>\<open>```json\n[{"a":1},]\n```\<close> gives \<^verbatim>\<open>[{"a":1}]\<close>,
  so a decoder that reads this text as the list holding the object \<^verbatim>\<open>{"a": 1}\<close> makes
  \<^verbatim>\<open>_parse_json\<close> return that list. In general a body without outer white space that
  is wrapped in a fence (with or without the \<^verbatim>\<open>json\<close> tag) comes back without the
  fence, and a comma directly before a closing bracket or brace is removed.
\<close>

theorem C7_clean_json_response:
  "clean_json_response (''```json'' @ NL @ ''[{\"a\":1},]'' @ NL @ ''```'') = ''[{\"a\":1}]''
   \<and> (json_loads env ''[{\"a\":1}]'' = Inr (JList [JDict [(''a'', JInt 1)]])
        \<longrightarrow> parse_json env (''```json'' @ NL @ ''[{\"a\":1},]'' @ NL @ ''```'')
              = Some [JDict [(''a'', JInt 1)]])
   \<and> (strip body = body
        \<longrightarrow> clean_json_response (''```json'' @ NL @ body @ NL @ ''```'')
              = sub_trailing_commas body
          \<and> clean_json_response (''```'' @ NL @ body @ NL @ ''```'')
              = sub_trailing_commas body)
   \<and> (b = CHR '']'' \<or> b = CHR ''}''
        \<longrightarrow> sub_trailing_commas (xs @ CHR '','' # b # ys)
              = sub_trailing_commas xs @ b # sub_trailing_commas ys)"
proof -
  have ex: "clean_json_response (''```json'' @ NL @ ''[{\"a\":1},]'' @ NL @ ''```'')
              = ''[{\"a\":1}]''"
    by (simp add: clean_json_response_def strip_def lstrip_def rstrip_def is_space_def NL_def
        sub_open_fence_def sub_close_fence_def startswith_def endswith_def)
  then have "json_loads env ''[{\"a\":1}]'' = Inr (JList [JDict [(''a'', JInt 1)]])
        \<Longrightarrow> parse_json env (''```json'' @ NL @ ''[{\"a\":1},]'' @ NL @ ''```'')
              = Some [JDict [(''a'', JInt 1)]]"
    by (simp add: parse_json_def)
  with ex show ?thesis
    using clean_fenced [of body] sub_trailing_commas_closer [of b xs ys] by blast
qed

theorem C7_clean_json_response_witness:
  "parse_json (example_env []) (''```json'' @ NL @ ''[{\"a\":1},]'' @ NL @ ''```'')
     = Some [JDict [(''a'', JInt 1)]]
   \<and> clean_json_response (''```json'' @ NL @ ''[1,]'' @ NL @ ''```'') = ''[1]''
   \<and> sub_trailing_commas ''{\"a\":[1,],}'' = ''{\"a\":[1]}''"
  using C7_clean_json_response [of "example_env []" "''[1,]''" "CHR '']''" "''[1''" "[]"]
    C7_clean_json_response [of "example_env []" "[]" "CHR ''}''" "''{\"a\":[1,]''" "[]"]
  by (simp add: example_env_def example_loads_def strip_def lstrip_def rstrip_def is_space_def)

section \<open>Properties of the validator\<close>

lemma and_then_simps [simp]:
  "and_then (Inr x) f = f x"
  "and_then (Inl e) f = Inl e"
  by (simp_all add: and_then_def)

lemma py_eq_JStr [simp]: "py_eq v (JStr s) = (v = JStr s)"
  by (cases v) auto

lemma py_eq_hashable: "py_eq p t \<Longrightarrow> hashable t \<Longrightarrow> hashable p"
  by (cases p; cases t) auto

lemma missing_loop_dict:
  "missing_loop (JDict kvs) fs = Inr (map missing_msg (filter (\<lambda>f. map_of kvs f = None) fs))"
  by (induction fs) (auto simp: py_in_def)

lemma validate_entry_missing:
  assumes "f \<in> set required_fields" "map_of kvs f = None"
  shows "validate_entry rt (JDict kvs)
           = Inr (map missing_msg (filter (\<lambda>f. map_of kvs f = None) required_fields))"
    and "map missing_msg (filter (\<lambda>f. map_of kvs f = None) required_fields) \<noteq> []"
proof -
  have "f \<in> set (filter (\<lambda>f. map_of kvs f = None) required_fields)" using assms by simp
  then have "filter (\<lambda>f. map_of kvs f = None) required_fields \<noteq> []"
    by (metis empty_iff list.set(1))
  then show ne: "map missing_msg (filter (\<lambda>f. map_of kvs f = None) required_fields) \<noteq> []"
    by simp
  then show "validate_entry rt (JDict kvs)
           = Inr (map missing_msg (filter (\<lambda>f. map_of kvs f = None) required_fields))"
    by (simp add: validate_entry_def missing_loop_dict)
qed

lemma in_str_set_hashable: "hashable v \<Longrightarrow> in_str_set v S = Inr (v \<in> set (map JStr S))"
  by (simp add: in_str_set_def)

lemma validate_entry_present:
  assumes all: "\<forall>f\<in>set required_fields. map_of kvs f \<noteq> None"
    and l: "map_of kvs ''level'' = Some l" "hashable l"
    and u: "map_of kvs ''user_intent'' = Some u" "hashable u"
    and s: "map_of kvs ''priority_score'' = Some s"
    and e: "map_of kvs ''semantic_entities'' = Some e"
    and p: "map_of kvs ''paa_questions'' = Some p"
    and c: "map_of kvs ''citations'' = Some c"
  shows "validate_entry rt (JDict kvs) =
           Inr ((if l \<in> set (map JStr VALID_LEVELS) then [] else [level_msg rt l])
                @ (if u \<in> set (map JStr VALID_INTENTS) then [] else [intent_msg rt u])
                @ score_errors rt s @ entities_errors e @ paa_errors p @ citations_errors c)"
proof -
  have "filter (\<lambda>f. map_of kvs f = None) required_fields = []"
    using all by (simp only: filter_empty_conv)
  then have m: "missing_loop (JDict kvs) required_fields = Inr []"
    by (simp add: missing_loop_dict)
  have 1: "check_level rt (JDict kvs)
             = Inr (if l \<in> set (map JStr VALID_LEVELS) then [] else [level_msg rt l])"
    using l by (simp add: check_level_def entry_item_def in_str_set_hashable)
  have 2: "check_user_intent rt (JDict kvs)
             = Inr (if u \<in> set (map JStr VALID_INTENTS) then [] else [intent_msg rt u])"
    using u by (simp add: check_user_intent_def entry_item_def in_str_set_hashable)
  have 3: "check_priority_score rt (JDict kvs) = Inr (score_errors rt s)"
    using s by (simp add: check_priority_score_def entry_get_def)
  have 4: "check_semantic_entities (JDict kvs) = Inr (entities_errors e)"
    using e by (simp add: check_semantic_entities_def entry_get_def)
  have 5: "check_paa_questions (JDict kvs) = Inr (paa_errors p)"
    using p by (simp add: check_paa_questions_def entry_get_def)
  have 6: "check_citations (JDict kvs) = Inr (citations_errors c)"
    using c by (simp add: check_citations_def entry_get_def)
  show ?thesis
    unfolding validate_entry_def m 1 2 3 4 5 6 by simp
qed

lemma present_obtain:
  assumes "\<forall>f\<in>set required_fields. map_of kvs f \<noteq> None"
  obtains l t u s e p c pt where
    "map_of kvs ''level'' = Some l" "map_of kvs ''content_title'' = Some t"
    "map_of kvs ''user_intent'' = Some u" "map_of kvs ''priority_score'' = Some s"
    "map_of kvs ''semantic_entities'' = Some e" "map_of kvs ''paa_questions'' = Some p"
    "map_of kvs ''citations'' = Some c" "map_of kvs ''parent_topic'' = Some pt"
proof -
  have "''level'' \<in> set required_fields" "''content_title'' \<in> set required_fields"
    "''user_intent'' \<in> set required_fields" "''priority_score'' \<in> set required_fields"
    "''semantic_entities'' \<in> set required_fields" "''paa_questions'' \<in> set required_fields"
    "''citations'' \<in> set required_fields" "''parent_topic'' \<in> set required_fields"
    by (simp_all add: required_fields_def)
  then have "map_of kvs ''level'' \<noteq> None" "map_of kvs ''content_title'' \<noteq> None"
    "map_of kvs ''user_intent'' \<noteq> None" "map_of kvs ''priority_score'' \<noteq> None"
    "map_of kvs ''semantic_entities'' \<noteq> None" "map_of kvs ''paa_questions'' \<noteq> None"
    "map_of kvs ''citations'' \<noteq> None" "map_of kvs ''parent_topic'' \<noteq> None"
    using assms by blast+
  then show thesis using that by blast
qed

lemma not_priority_prefix:
  "\<not> prefix ''Invalid priority_score'' (level_msg rt l)"
  "\<not> prefix ''Invalid priority_score'' (intent_msg rt u)"
  "\<forall>m\<in>set (entities_errors e). \<not> prefix ''Invalid priority_score'' m"
  "\<forall>m\<in>set (paa_errors p). \<not> prefix ''Invalid priority_score'' m"
  "\<forall>m\<in>set (citations_errors c). \<not> prefix ''Invalid priority_score'' m"
  by (simp_all add: level_msg_def intent_msg_def entities_errors_def paa_errors_def
      citations_errors_def)

lemma example_fields_present:
  "\<forall>f\<in>set required_fields. map_of (example_fields l t p s) f \<noteq> None"
  by (simp add: required_fields_def example_fields_def)

lemma example_fields_lookup:
  "map_of (example_fields l t p s) ''level'' = Some l"
  "map_of (example_fields l t p s) ''content_title'' = Some t"
  "map_of (example_fields l t p s) ''parent_topic'' = Some p"
  "map_of (example_fields l t p s) ''priority_score'' = Some s"
  "map_of (example_fields l t p s) ''user_intent'' = Some (JStr ''Informational'')"
  "map_of (example_fields l t p s) ''semantic_entities'' = Some (JList [JStr ''a'', JStr ''b'', JStr ''c''])"
  "map_of (example_fields l t p s) ''paa_questions'' = Some (JList [JStr ''q1'', JStr ''q2''])"
  "map_of (example_fields l t p s) ''citations'' = Some (JList [JStr ''c1''])"
  by (simp_all add: example_fields_def)

lemma missing_loop_present:
  "\<forall>f\<in>set required_fields. map_of kvs f \<noteq> None
   \<Longrightarrow> missing_loop (JDict kvs) required_fields = Inr []"
  by (simp add: missing_loop_dict filter_empty_conv)

lemma validate_entry_unhashable_level:
  assumes "\<forall>f\<in>set required_fields. map_of kvs f \<noteq> None"
    and "map_of kvs ''level'' = Some l" "\<not> hashable l"
  shows "validate_entry rt (JDict kvs) = Inl TypeError"
proof -
  have "check_level rt (JDict kvs) = Inl TypeError"
    using assms(2,3) by (simp add: check_level_def entry_item_def in_str_set_def)
  then show ?thesis
    by (simp add: validate_entry_def missing_loop_present [OF assms(1)])
qed

lemma validate_example_entry:
  assumes "hashable l"
  shows "validate_entry rt (example_entry l t p s) =
     Inr ((if l \<in> set (map JStr VALID_LEVELS) then [] else [level_msg rt l]) @ score_errors rt s)"
proof -
  have i: "hashable (JStr ''Informational'')" by simp
  show ?thesis
    unfolding example_entry_def
    using validate_entry_present [of "example_fields l t p s" l "JStr ''Informational''" s
        "JList [JStr ''a'', JStr ''b'', JStr ''c'']" "JList [JStr ''q1'', JStr ''q2'']"
        "JList [JStr ''c1'']" rt, OF example_fields_present example_fields_lookup(1) assms
        example_fields_lookup(5) i example_fields_lookup(4) example_fields_lookup(6)
        example_fields_lookup(7) example_fields_lookup(8)]
    by (simp add: VALID_INTENTS_def entities_errors_def paa_errors_def citations_errors_def)
qed

text \<open>
  Where the two membership tests return (level and intent are hashable), an entry with
  all thirteen fields gets the \<^verbatim>\<open>Invalid priority_score\<close> message when the score fails
  \<^verbatim>\<open>isinstance(score, int)\<close> or lies below 1 or above 5, and no message about the score
  when it is an integer from 1 to 5.
\<close>

lemma priority_score_reported:
  assumes "\<forall>f\<in>set required_fields. map_of kvs f \<noteq> None"
    and "\<forall>v. map_of kvs ''level'' = Some v \<or> map_of kvs ''user_intent'' = Some v \<longrightarrow> hashable v"
    and "map_of kvs ''priority_score'' = Some score"
  shows "\<exists>errors. validate_entry rt (JDict kvs) = Inr errors
     \<and> (int_of score = None \<or> (\<exists>n. int_of score = Some n \<and> (n < 1 \<or> 5 < n))
          \<longrightarrow> score_msg rt score \<in> set errors
              \<and> prefix ''Invalid priority_score'' (score_msg rt score))
     \<and> ((\<exists>n. score = JInt n \<and> 1 \<le> n \<and> n \<le> 5)
          \<longrightarrow> (\<forall>m\<in>set errors. \<not> prefix ''Invalid priority_score'' m))"
proof -
  from assms(1) obtain l t u s e p c pt where f:
    "map_of kvs ''level'' = Some l" "map_of kvs ''content_title'' = Some t"
    "map_of kvs ''user_intent'' = Some u" "map_of kvs ''priority_score'' = Some s"
    "map_of kvs ''semantic_entities'' = Some e" "map_of kvs ''paa_questions'' = Some p"
    "map_of kvs ''citations'' = Some c" "map_of kvs ''parent_topic'' = Some pt"
    by (rule present_obtain)
  have h: "hashable l" "hashable u" using assms(2) f by blast+
  have s: "s = score" using assms(3) f by simp
  note v = validate_entry_present [OF assms(1) f(1) h(1) f(3) h(2) assms(3) f(5) f(6) f(7), of rt]
  have a: "int_of score = None \<or> (\<exists>n. int_of score = Some n \<and> (n < 1 \<or> 5 < n))
            \<Longrightarrow> score_errors rt score = [score_msg rt score]"
    by (auto simp: score_errors_def)
  have b: "\<exists>n. score = JInt n \<and> 1 \<le> n \<and> n \<le> 5 \<Longrightarrow> score_errors rt score = []"
    by (auto simp: score_errors_def)
  have pre: "prefix ''Invalid priority_score'' (score_msg rt score)"
    by (simp add: score_msg_def)
  show ?thesis
    unfolding v using a b pre not_priority_prefix
    by (auto simp del: set_map)
qed

text \<open>
  Claim C8, the failing input. The entry has all thirteen fields, a valid level and
  intent, and the JSON boolean \<^verbatim>\<open>true\<close> as its score. \<^verbatim>\<open>true\<close> is no integer, yet
  \<^verbatim>\<open>isinstance(True, int)\<close> holds and \<^verbatim>\<open>True\<close> counts 1, so \<^verbatim>\<open>validate_entry\<close>
  returns the empty list: the score is not reported.
\<close>

theorem C8_boolean_score_accepted:
  "missing_loop (example_entry (JStr ''Pillar'') (JStr ''Guide'') (JStr []) (JBool True))
     required_fields = Inr []
   \<and> int_of (JBool True) = Some 1
   \<and> validate_entry example_rt
       (example_entry (JStr ''Pillar'') (JStr ''Guide'') (JStr []) (JBool True)) = Inr []"
proof -
  have "missing_loop (example_entry (JStr ''Pillar'') (JStr ''Guide'') (JStr []) (JBool True))
          required_fields = Inr []"
    unfolding example_entry_def by (rule missing_loop_present [OF example_fields_present])
  then show ?thesis
    by (simp add: validate_example_entry VALID_LEVELS_def score_errors_def)
qed

lemma passes_dict:
  assumes "passes_entry_checks e"
  obtains kvs l u n es qs cs where "e = JDict kvs"
    "\<forall>f\<in>set required_fields. map_of kvs f \<noteq> None"
    "map_of kvs ''level'' = Some (JStr l)" "l \<in> set VALID_LEVELS"
    "map_of kvs ''user_intent'' = Some (JStr u)" "u \<in> set VALID_INTENTS"
    "map_of kvs ''priority_score'' = Some (JInt n)" "1 \<le> n" "n \<le> 5"
    "map_of kvs ''semantic_entities'' = Some (JList es)" "3 \<le> length es" "length es \<le> 5"
    "map_of kvs ''paa_questions'' = Some (JList qs)" "2 \<le> length qs"
    "map_of kvs ''citations'' = Some (JList cs)" "1 \<le> length cs"
  using assms unfolding passes_entry_checks_def
  by (auto split: json.splits option.splits)

lemma passes_validate_entry:
  assumes "passes_entry_checks e"
  shows "validate_entry rt e = Inr []"
proof -
  from assms obtain kvs l u n es qs cs where k: "e = JDict kvs"
    "\<forall>f\<in>set required_fields. map_of kvs f \<noteq> None"
    "map_of kvs ''level'' = Some (JStr l)" "l \<in> set VALID_LEVELS"
    "map_of kvs ''user_intent'' = Some (JStr u)" "u \<in> set VALID_INTENTS"
    "map_of kvs ''priority_score'' = Some (JInt n)" "1 \<le> n" "n \<le> 5"
    "map_of kvs ''semantic_entities'' = Some (JList es)" "3 \<le> length es" "length es \<le> 5"
    "map_of kvs ''paa_questions'' = Some (JList qs)" "2 \<le> length qs"
    "map_of kvs ''citations'' = Some (JList cs)" "1 \<le> length cs"
    by (rule passes_dict)
  have h: "hashable (JStr l)" "hashable (JStr u)" by simp_all
  show ?thesis
    unfolding k(1)
    using validate_entry_present [OF k(2) k(3) h(1) k(5) h(2) k(7) k(10) k(13) k(15), of rt]
      k(4,6,8,9,11,12,14,16)
    by (auto simp: score_errors_def entities_errors_def paa_errors_def citations_errors_def)
qed

lemma entries_loop_pass:
  "\<forall>e\<in>set entries. passes_entry_checks e \<Longrightarrow> entries_loop rt i entries = Inr []"
  by (induction entries arbitrary: i) (simp_all add: passes_validate_entry)

lemma with_level_pass:
  "\<forall>e\<in>set entries. passes_entry_checks e \<Longrightarrow>
   with_level name entries
     = Inr (filter (\<lambda>e. entry_item e ''level'' = Inr (JStr name)) entries)"
proof (induction entries)
  case Nil
  then show ?case by simp
next
  case (Cons e es)
  then have "passes_entry_checks e" by simp
  then obtain kvs l where "e = JDict kvs" "map_of kvs ''level'' = Some (JStr l)"
    by (rule passes_dict)
  then have "entry_item e ''level'' = Inr (JStr l)" by (simp add: entry_item_def)
  with Cons show ?case by auto
qed

lemma case_not_single:
  "length xs \<noteq> 1 \<Longrightarrow> (case xs of [] \<Rightarrow> b | [p] \<Rightarrow> a p | p # q # r \<Rightarrow> b) = b"
  by (cases xs; simp split: list.splits)

text \<open>
  Claim C4, as amended. When every entry passes the per-entry checks and the number of
  Pillar entries is not one, \<^verbatim>\<open>validate_topic_map\<close> returns exactly one message,
  \<^verbatim>\<open>Expected exactly 1 Pillar, found N\<close>, and therefore no parent message.
\<close>

theorem C4_pillar_count:
  assumes "\<forall>e\<in>set entries. passes_entry_checks e"
    and "length (filter (\<lambda>e. entry_item e ''level'' = Inr (JStr ''Pillar'')) entries) \<noteq> 1"
  shows "validate_topic_map rt entries =
           Inr [''Expected exactly 1 Pillar, found ''
                  @ string_of_nat
                      (length (filter (\<lambda>e. entry_item e ''level'' = Inr (JStr ''Pillar''))
                         entries))]"
  unfolding validate_topic_map_def
  by (simp add: entries_loop_pass [OF assms(1)] with_level_pass [OF assms(1)]
      case_not_single [OF assms(2)] pillar_count_msg_def)

lemma passes_example:
  "passes_entry_checks (example_entry (JStr l) t p (JInt n))
     = (l \<in> set VALID_LEVELS \<and> 1 \<le> n \<and> n \<le> 5)"
  unfolding passes_entry_checks_def example_entry_def
  using example_fields_present [of "JStr l" t p "JInt n"]
  by (simp add: example_fields_lookup VALID_INTENTS_def)

lemma entry_item_example:
  "entry_item (example_entry l t p s) ''level'' = Inr l"
  "entry_item (example_entry l t p s) ''content_title'' = Inr t"
  "entry_item (example_entry l t p s) ''parent_topic'' = Inr p"
  by (simp_all add: entry_item_def example_entry_def example_fields_lookup)

lemma entry_get_example:
  "entry_get (example_entry l t p s) ''content_title'' d = Inr t"
  "entry_get (example_entry l t p s) ''parent_topic'' d = Inr p"
  by (simp_all add: entry_get_def example_entry_def example_fields_lookup)

lemma string_of_nat_digit: "n < 10 \<Longrightarrow> string_of_nat n = [''0123456789'' ! n]"
  by (simp add: string_of_nat.simps)

text \<open>
  Claim C4 as stated fails: a list with no Pillar whose only entry has the score 9 gets
  the message about the score and no message about the Pillar count, since the
  structural checks are not reached when an entry has an error.
\<close>

theorem C4_pillar_count_counterexample:
  "with_level ''Pillar''
     [example_entry (JStr ''Cluster'') (JStr ''Guide'') (JStr ''Hub'') (JInt 9)] = Inr []
   \<and> validate_topic_map example_rt
       [example_entry (JStr ''Cluster'') (JStr ''Guide'') (JStr ''Hub'') (JInt 9)]
     = Inr [''Entry 0 (Guide): Invalid priority_score '' @ quote @ ''9'' @ quote
              @ ''. Must be integer 1-5'']
   \<and> \<not> contains ''Expected exactly 1 Pillar''
         (''Entry 0 (Guide): Invalid priority_score '' @ quote @ ''9'' @ quote
              @ ''. Must be integer 1-5'')"
  by (simp add: validate_topic_map_def validate_example_entry entry_item_example
      entry_get_example VALID_LEVELS_def score_errors_def score_msg_def py_str_def
      string_of_int_def string_of_nat_digit entry_prefix_def quote_def)

theorem C4_pillar_count_witness:
  "validate_topic_map example_rt
     [example_entry (JStr ''Cluster'') (JStr ''Guide'') (JStr ''Hub'') (JInt 3)]
     = Inr [''Expected exactly 1 Pillar, found 0'']"
  using C4_pillar_count
    [of "[example_entry (JStr ''Cluster'') (JStr ''Guide'') (JStr ''Hub'') (JInt 3)]" example_rt]
  by (simp add: passes_example entry_item_example VALID_LEVELS_def string_of_nat_digit)

lemma passes_fields:
  assumes "passes_entry_checks e"
  obtains kvs l t p where "e = JDict kvs"
    "map_of kvs ''level'' = Some (JStr l)"
    "map_of kvs ''content_title'' = Some t"
    "map_of kvs ''parent_topic'' = Some p"
proof -
  from assms obtain kvs l where k: "e = JDict kvs"
    "\<forall>f\<in>set required_fields. map_of kvs f \<noteq> None" "map_of kvs ''level'' = Some (JStr l)"
    by (rule passes_dict)
  from k(2) obtain t p where "map_of kvs ''content_title'' = Some t"
    "map_of kvs ''parent_topic'' = Some p"
    by (rule present_obtain)
  with k show thesis using that by blast
qed

lemma title_set_ok:
  assumes "\<forall>c\<in>set cs. passes_entry_checks c"
    and "\<forall>c\<in>set cs. \<forall>t. entry_item c ''content_title'' = Inr t \<longrightarrow> hashable t"
  shows "\<exists>ts. title_set cs = Inr ts
           \<and> (\<forall>c\<in>set cs. \<forall>t. entry_item c ''content_title'' = Inr t \<longrightarrow> t \<in> set ts)"
  using assms
proof (induction cs)
  case Nil
  then show ?case by simp
next
  case (Cons c cs)
  then obtain ts where ts: "title_set cs = Inr ts"
    "\<forall>c\<in>set cs. \<forall>t. entry_item c ''content_title'' = Inr t \<longrightarrow> t \<in> set ts"
    by auto
  from Cons.prems have "passes_entry_checks c" by simp
  then obtain kvs l t p where k: "c = JDict kvs" "map_of kvs ''content_title'' = Some t"
    by (rule passes_fields)
  then have i: "entry_item c ''content_title'' = Inr t" by (simp add: entry_item_def)
  with Cons.prems have "hashable t" by simp
  with i ts show ?case by auto
qed

lemma cluster_loop_ok:
  assumes "\<forall>c\<in>set cs. passes_entry_checks c"
    and "\<forall>c\<in>set cs. \<forall>p. entry_item c ''parent_topic'' = Inr p \<and> py_truthy p
           \<longrightarrow> py_eq p pillar_title"
  shows "cluster_loop rt pillar_title cs = Inr []"
  using assms
proof (induction cs)
  case Nil
  then show ?case by simp
next
  case (Cons c cs)
  from Cons.prems have "passes_entry_checks c" by simp
  then obtain kvs l t p where k: "c = JDict kvs" "map_of kvs ''parent_topic'' = Some p"
    by (rule passes_fields)
  then have i: "entry_item c ''parent_topic'' = Inr p"
    and g: "entry_get c ''parent_topic'' (JStr []) = Inr p"
    by (simp_all add: entry_item_def entry_get_def)
  with Cons.prems have "py_truthy p \<longrightarrow> py_eq p pillar_title" by simp
  with g Cons show ?case by auto
qed

lemma spoke_loop_ok:
  assumes "\<forall>s\<in>set ss. passes_entry_checks s"
    and "\<forall>s\<in>set ss. \<forall>p. entry_item s ''parent_topic'' = Inr p \<and> py_truthy p
           \<longrightarrow> (\<exists>t\<in>set ts. hashable t \<and> py_eq p t)"
  shows "spoke_loop rt ts ss = Inr []"
  using assms
proof (induction ss)
  case Nil
  then show ?case by simp
next
  case (Cons s ss)
  from Cons.prems have "passes_entry_checks s" by simp
  then obtain kvs l t p where k: "s = JDict kvs" "map_of kvs ''parent_topic'' = Some p"
    by (rule passes_fields)
  then have i: "entry_item s ''parent_topic'' = Inr p"
    and g: "entry_get s ''parent_topic'' (JStr []) = Inr p"
    by (simp_all add: entry_item_def entry_get_def)
  have "py_truthy p \<Longrightarrow> py_in_set p ts = Inr True"
  proof -
    assume "py_truthy p"
    with i Cons.prems obtain t where t: "t \<in> set ts" "hashable t" "py_eq p t" by auto
    then have "hashable p" using py_eq_hashable by blast
    with t show ?thesis by (auto simp: py_in_set_def list_ex_iff)
  qed
  with g Cons show ?case by auto
qed

text \<open>
  Claim C1, as amended. Let every entry pass the per-entry checks, let exactly one entry
  be a Pillar, let every Cluster's non-empty parent equal (Python's \<^verbatim>\<open>==\<close>) the Pillar's
  title and every Spoke's non-empty parent equal some Cluster's title, and let every
  Cluster's title be hashable (not a list or an object). Then \<^verbatim>\<open>validate_topic_map\<close>
  returns the empty list.
\<close>

theorem C1_valid_map_no_errors:
  assumes pass: "\<forall>e\<in>set entries. passes_entry_checks e"
    and pillar: "filter (\<lambda>e. entry_item e ''level'' = Inr (JStr ''Pillar'')) entries = [pillar]"
      "entry_item pillar ''content_title'' = Inr pillar_title"
    and clusters: "\<forall>c\<in>set entries. entry_item c ''level'' = Inr (JStr ''Cluster'') \<longrightarrow>
        (\<forall>p. entry_item c ''parent_topic'' = Inr p \<and> py_truthy p \<longrightarrow> py_eq p pillar_title)"
    and spokes: "\<forall>s\<in>set entries. entry_item s ''level'' = Inr (JStr ''Spoke'') \<longrightarrow>
        (\<forall>p. entry_item s ''parent_topic'' = Inr p \<and> py_truthy p \<longrightarrow>
           (\<exists>c\<in>set entries. entry_item c ''level'' = Inr (JStr ''Cluster'')
              \<and> (\<exists>t. entry_item c ''content_title'' = Inr t \<and> py_eq p t)))"
    and hash: "\<forall>c\<in>set entries. entry_item c ''level'' = Inr (JStr ''Cluster'') \<longrightarrow>
        (\<forall>t. entry_item c ''content_title'' = Inr t \<longrightarrow> hashable t)"
  shows "validate_topic_map rt entries = Inr []"
proof -
  let ?cs = "filter (\<lambda>e. entry_item e ''level'' = Inr (JStr ''Cluster'')) entries"
  let ?ss = "filter (\<lambda>e. entry_item e ''level'' = Inr (JStr ''Spoke'')) entries"
  have pc: "\<forall>c\<in>set ?cs. passes_entry_checks c" and ps: "\<forall>c\<in>set ?ss. passes_entry_checks c"
    using pass by simp_all
  have "\<forall>c\<in>set ?cs. \<forall>t. entry_item c ''content_title'' = Inr t \<longrightarrow> hashable t"
    using hash by auto
  from title_set_ok [OF pc this] obtain ts where ts: "title_set ?cs = Inr ts"
    "\<forall>c\<in>set ?cs. \<forall>t. entry_item c ''content_title'' = Inr t \<longrightarrow> t \<in> set ts"
    by blast
  have cl: "cluster_loop rt pillar_title ?cs = Inr []"
    by (rule cluster_loop_ok [OF pc]) (use clusters in auto)
  have "\<forall>s\<in>set ?ss. \<forall>p. entry_item s ''parent_topic'' = Inr p \<and> py_truthy p
           \<longrightarrow> (\<exists>t\<in>set ts. hashable t \<and> py_eq p t)"
  proof (intro ballI allI impI)
    fix s p assume s: "s \<in> set ?ss" and p: "entry_item s ''parent_topic'' = Inr p \<and> py_truthy p"
    from s have s': "s \<in> set entries" "entry_item s ''level'' = Inr (JStr ''Spoke'')"
      by simp_all
    from spokes s' p have "\<exists>c\<in>set entries. entry_item c ''level'' = Inr (JStr ''Cluster'')
              \<and> (\<exists>t. entry_item c ''content_title'' = Inr t \<and> py_eq p t)"
      by blast
    then obtain c t where c: "c \<in> set entries"
      "entry_item c ''level'' = Inr (JStr ''Cluster'')"
      "entry_item c ''content_title'' = Inr t" "py_eq p t"
      by blast
    then have "t \<in> set ts" "hashable t" using ts(2) hash by auto
    with c(4) show "\<exists>t\<in>set ts. hashable t \<and> py_eq p t" by blast
  qed
  from spoke_loop_ok [OF ps this] have sl: "spoke_loop rt ts ?ss = Inr []" .
  show ?thesis
    unfolding validate_topic_map_def
    by (simp add: entries_loop_pass [OF pass] with_level_pass [OF pass] pillar ts(1) cl sl)
qed

text \<open>
  Claim C1 as stated fails: both entries pass the per-entry checks, there is one Pillar,
  the Cluster's parent is the Pillar's title and there is no Spoke, but the Cluster's
  title is a list, and building the set of Cluster titles raises \<^verbatim>\<open>TypeError\<close>.
\<close>

theorem C1_valid_map_no_errors_counterexample:
  "passes_entry_checks (example_entry (JStr ''Pillar'') (JStr ''Hub'') (JStr []) (JInt 3))
   \<and> passes_entry_checks
         (example_entry (JStr ''Cluster'') (JList [JStr ''Guide'']) (JStr ''Hub'') (JInt 3))
   \<and> validate_topic_map example_rt
       [example_entry (JStr ''Pillar'') (JStr ''Hub'') (JStr []) (JInt 3),
        example_entry (JStr ''Cluster'') (JList [JStr ''Guide'']) (JStr ''Hub'') (JInt 3)]
     = Inl TypeError"
  by (simp add: passes_example validate_topic_map_def validate_example_entry
      entry_item_example entry_get_example VALID_LEVELS_def score_errors_def)

theorem C1_valid_map_no_errors_witness:
  "validate_topic_map example_rt
     [example_entry (JStr ''Pillar'') (JStr ''Hub'') (JStr []) (JInt 3),
      example_entry (JStr ''Cluster'') (JStr ''Guide'') (JStr ''Hub'') (JInt 1),
      example_entry (JStr ''Spoke'') (JStr ''Tips'') (JStr ''Guide'') (JInt 5)]
     = Inr []"
  using C1_valid_map_no_errors
    [of "[example_entry (JStr ''Pillar'') (JStr ''Hub'') (JStr []) (JInt 3),
          example_entry (JStr ''Cluster'') (JStr ''Guide'') (JStr ''Hub'') (JInt 1),
          example_entry (JStr ''Spoke'') (JStr ''Tips'') (JStr ''Guide'') (JInt 5)]"
        "example_entry (JStr ''Pillar'') (JStr ''Hub'') (JStr []) (JInt 3)"
        "JStr ''Hub''" example_rt]
  by (simp add: passes_example entry_item_example VALID_LEVELS_def)

lemma prefix_loop_dict:
  "prefix_loop rt i (JDict kvs) errs =
     Inr (map (\<lambda>err. entry_prefix rt i
                 (case map_of kvs ''content_title'' of None \<Rightarrow> JStr ''unknown'' | Some t \<Rightarrow> t)
               @ err) errs)"
  by (induction errs) (simp_all add: entry_get_def)

lemma validate_entry_returns:
  assumes "\<forall>v. map_of kvs ''level'' = Some v \<or> map_of kvs ''user_intent'' = Some v
             \<longrightarrow> hashable v"
  shows "\<exists>errs. validate_entry rt (JDict kvs) = Inr errs"
proof (cases "\<forall>f\<in>set required_fields. map_of kvs f \<noteq> None")
  case True
  then obtain l t u s e p c pt where f:
    "map_of kvs ''level'' = Some l" "map_of kvs ''content_title'' = Some t"
    "map_of kvs ''user_intent'' = Some u" "map_of kvs ''priority_score'' = Some s"
    "map_of kvs ''semantic_entities'' = Some e" "map_of kvs ''paa_questions'' = Some p"
    "map_of kvs ''citations'' = Some c" "map_of kvs ''parent_topic'' = Some pt"
    by (rule present_obtain)
  have h: "hashable l" "hashable u" using assms f by blast+
  show ?thesis
    using validate_entry_present [OF True f(1) h(1) f(3) h(2) f(4) f(5) f(6) f(7), of rt]
    by blast
next
  case False
  then obtain f where "f \<in> set required_fields" "map_of kvs f = None" by blast
  then show ?thesis using validate_entry_missing(1) by blast
qed

lemma entry_prefix_Entry: "prefix ''Entry '' (entry_prefix rt i t @ err)"
  by (simp add: entry_prefix_def)

lemma entries_loop_returns:
  assumes "\<forall>e\<in>set entries. \<exists>kvs. e = JDict kvs \<and>
             (\<forall>v. map_of kvs ''level'' = Some v \<or> map_of kvs ''user_intent'' = Some v
                \<longrightarrow> hashable v)"
  shows "\<exists>msgs. entries_loop rt k entries = Inr msgs
           \<and> (\<forall>m\<in>set msgs. prefix ''Entry '' m)
           \<and> (\<forall>j kvs errs. j < length entries \<and> entries ! j = JDict kvs
                  \<and> validate_entry rt (JDict kvs) = Inr errs
                \<longrightarrow> (\<forall>err\<in>set errs.
                       entry_prefix rt (k + j)
                         (case map_of kvs ''content_title'' of
                            None \<Rightarrow> JStr ''unknown'' | Some t \<Rightarrow> t) @ err \<in> set msgs))"
  using assms
proof (induction entries arbitrary: k)
  case Nil
  then show ?case by simp
next
  case (Cons e es)
  from Cons.prems obtain kvs where e: "e = JDict kvs"
    and h: "\<forall>v. map_of kvs ''level'' = Some v \<or> map_of kvs ''user_intent'' = Some v
              \<longrightarrow> hashable v"
    by auto
  from validate_entry_returns [OF h] obtain errs where v: "validate_entry rt (JDict kvs) = Inr errs"
    by blast
  let ?t = "case map_of kvs ''content_title'' of None \<Rightarrow> JStr ''unknown'' | Some t \<Rightarrow> t"
  let ?here = "map (\<lambda>err. entry_prefix rt k ?t @ err) errs"
  from Cons.prems have "\<forall>e\<in>set es. \<exists>kvs. e = JDict kvs \<and>
             (\<forall>v. map_of kvs ''level'' = Some v \<or> map_of kvs ''user_intent'' = Some v
                \<longrightarrow> hashable v)"
    by simp
  from Cons.IH [OF this, of "Suc k"] obtain rest where r:
    "entries_loop rt (Suc k) es = Inr rest"
    "\<forall>m\<in>set rest. prefix ''Entry '' m"
    "\<forall>j kvs errs. j < length es \<and> es ! j = JDict kvs
        \<and> validate_entry rt (JDict kvs) = Inr errs
      \<longrightarrow> (\<forall>err\<in>set errs.
             entry_prefix rt (Suc k + j)
               (case map_of kvs ''content_title'' of
                  None \<Rightarrow> JStr ''unknown'' | Some t \<Rightarrow> t) @ err \<in> set rest)"
    by blast
  have loop: "entries_loop rt k (e # es) = Inr (?here @ rest)"
    by (simp add: e v prefix_loop_dict r(1))
  have p: "\<forall>m\<in>set (?here @ rest). prefix ''Entry '' m"
    using r(2) entry_prefix_Entry by auto
  have m: "\<forall>err\<in>set errs'.
             entry_prefix rt (k + j)
               (case map_of kvs' ''content_title'' of
                  None \<Rightarrow> JStr ''unknown'' | Some t \<Rightarrow> t) @ err \<in> set (?here @ rest)"
    if "j < length (e # es)" "(e # es) ! j = JDict kvs'"
      "validate_entry rt (JDict kvs') = Inr errs'" for j kvs' errs'
  proof (cases j)
    case 0
    with that e v have "kvs' = kvs" "errs' = errs" by simp_all
    with 0 show ?thesis by simp
  next
    case (Suc j')
    with that have "j' < length es" "es ! j' = JDict kvs'" by simp_all
    with r(3) that(3) Suc show ?thesis by simp
  qed
  show ?case
    unfolding loop using p m by blast
qed

text \<open>
  Where no per-entry check raises (every entry is a dict whose level and intent, where
  present, are hashable), an entry at index \<open>i\<close> that lacks the field \<open>f\<close> gets the
  message \<^verbatim>\<open>Entry i (title): Missing required field: f\<close>, nothing but its missing fields is
  reported for it, and the result holds per-entry messages only.
\<close>

lemma missing_field_reported:
  assumes "\<forall>e\<in>set entries. \<exists>kvs. e = JDict kvs"
    and "\<forall>e\<in>set entries. \<forall>v. entry_item e ''level'' = Inr v
            \<or> entry_item e ''user_intent'' = Inr v \<longrightarrow> hashable v"
    and "i < length entries" and "entries ! i = JDict kvs"
    and "f \<in> set required_fields" and "map_of kvs f = None"
  shows "\<exists>errors. validate_topic_map rt entries = Inr errors
     \<and> ''Entry '' @ string_of_nat i @ '' (''
          @ py_str rt (case map_of kvs ''content_title'' of
                         None \<Rightarrow> JStr ''unknown'' | Some t \<Rightarrow> t)
          @ ''): '' @ ''Missing required field: '' @ f \<in> set errors
     \<and> validate_entry rt (JDict kvs)
          = Inr (map (\<lambda>g. ''Missing required field: '' @ g)
                   (filter (\<lambda>g. map_of kvs g = None) required_fields))
     \<and> (\<forall>m\<in>set errors. prefix ''Entry '' m)"
proof -
  have ok: "\<forall>e\<in>set entries. \<exists>kvs. e = JDict kvs \<and>
             (\<forall>v. map_of kvs ''level'' = Some v \<or> map_of kvs ''user_intent'' = Some v
                \<longrightarrow> hashable v)"
  proof
    fix e assume e: "e \<in> set entries"
    with assms(1) obtain kvs where k: "e = JDict kvs" by blast
    have "hashable v" if "map_of kvs ''level'' = Some v \<or> map_of kvs ''user_intent'' = Some v"
      for v
    proof -
      from that have "entry_item e ''level'' = Inr v \<or> entry_item e ''user_intent'' = Inr v"
        by (auto simp: k entry_item_def)
      with assms(2) e show ?thesis by blast
    qed
    with k show "\<exists>kvs. e = JDict kvs \<and>
             (\<forall>v. map_of kvs ''level'' = Some v \<or> map_of kvs ''user_intent'' = Some v
                \<longrightarrow> hashable v)"
      by blast
  qed
  from entries_loop_returns [OF ok, of rt 0] obtain msgs where l:
    "entries_loop rt 0 entries = Inr msgs"
    "\<forall>m\<in>set msgs. prefix ''Entry '' m"
    "\<forall>j kvs errs. j < length entries \<and> entries ! j = JDict kvs
        \<and> validate_entry rt (JDict kvs) = Inr errs
      \<longrightarrow> (\<forall>err\<in>set errs.
             entry_prefix rt (0 + j)
               (case map_of kvs ''content_title'' of
                  None \<Rightarrow> JStr ''unknown'' | Some t \<Rightarrow> t) @ err \<in> set msgs)"
    by blast
  let ?errs = "map missing_msg (filter (\<lambda>g. map_of kvs g = None) required_fields)"
  note v = validate_entry_missing [OF assms(5,6)]
  have "missing_msg f \<in> set ?errs" using assms(5,6) by simp
  with l(3) assms(3,4) v(1)
  have "entry_prefix rt (0 + i)
          (case map_of kvs ''content_title'' of None \<Rightarrow> JStr ''unknown'' | Some t \<Rightarrow> t)
        @ missing_msg f \<in> set msgs"
    by blast
  then have mem: "''Entry '' @ string_of_nat i @ '' (''
          @ py_str rt (case map_of kvs ''content_title'' of
                         None \<Rightarrow> JStr ''unknown'' | Some t \<Rightarrow> t)
          @ ''): '' @ ''Missing required field: '' @ f \<in> set msgs"
    by (simp add: entry_prefix_def missing_msg_def)
  then have "msgs \<noteq> []" by auto
  then have "validate_topic_map rt entries = Inr msgs"
    by (simp add: validate_topic_map_def l(1))
  moreover have "validate_entry rt (JDict kvs)
          = Inr (map (\<lambda>g. ''Missing required field: '' @ g)
                   (filter (\<lambda>g. map_of kvs g = None) required_fields))"
    using v(1) by (simp add: missing_msg_def [abs_def])
  ultimately show ?thesis using mem l(2) by blast
qed

text \<open>
  Claim C3, the failing input. The second entry lacks every required field. The first
  has all thirteen, with the empty list as its level; the test
  \<^verbatim>\<open>entry["level"] not in VALID_LEVELS\<close>, which reports any other wrong level, raises
  \<^verbatim>\<open>TypeError\<close> on it, and \<^verbatim>\<open>validate_topic_map\<close> returns no list, so that no missing
  field of the second entry is reported.
\<close>

theorem C3_unhashable_level_raises:
  "py_in ''level'' (JDict []) = Inr False
   \<and> validate_topic_map example_rt
       [example_entry (JList []) (JStr ''Guide'') (JStr []) (JInt 3), JDict []]
     = Inl TypeError"
  unfolding example_entry_def validate_topic_map_def
  using validate_entry_unhashable_level [OF example_fields_present example_fields_lookup(1),
      of "JList []" example_rt "JStr ''Guide''" "JStr []" "JInt 3"]
  by (simp add: py_in_def)

section \<open>Properties of the generation\<close>

lemma attempt_loop_calls:
  "calls (snd (attempt_loop env system msg attempts st)) = calls st"
  by (induction attempts arbitrary: st) (auto simp: Let_def split: api_reply.splits)

lemma call_claude_calls:
  "calls (snd (call_claude env system msg st)) = calls st @ [msg]"
  unfolding call_claude_def by (simp only: attempt_loop_calls) simp


lemma clean_whitespace:
  assumes "\<forall>c\<in>set raw. is_space c"
  shows "rstrip raw = []" "clean_json_response raw = []"
proof -
  have d: "dropWhile is_space raw = []" using assms by simp
  have "dropWhile is_space (rev raw) = []" using assms by simp
  then show r: "rstrip raw = []" by (simp add: rstrip_def)
  have s: "strip raw = []" unfolding strip_def lstrip_def d by (simp add: rstrip_def)
  have o: "sub_open_fence [] = []" by (simp add: sub_open_fence_def startswith_def)
  have c: "sub_close_fence [] = []" by (simp add: sub_close_fence_def rstrip_def endswith_def)
  have s0: "strip [] = []" by (simp add: strip_def lstrip_def rstrip_def)
  show "clean_json_response raw = []"
    unfolding clean_json_response_def s o c s0 by simp
qed

lemma generate_staged:
  assumes "ANTHROPIC_API_KEY env \<noteq> []"
    and "call_claude env (TOPIC_MAP_SYSTEM_PROMPT env) (user_prompt env a) st = (Inr raw, st1)"
    and "parse_with_repair env raw st1 = (Inr parsed, st2)"
  shows "generate_topic_map env a st =
           (case continue_if_truncated env raw parsed st2 of
              (Inl err, st3) \<Rightarrow> (Inl err, st3)
            | (Inr merged, st3) \<Rightarrow> (validate_and_return (runtime env) merged, st3))"
  using assms by (simp add: generate_topic_map_def)


lemma example_env_fields [simp]:
  "ANTHROPIC_API_KEY (example_env rs) = ''sk-test''"
  "TOPIC_MAP_SYSTEM_PROMPT (example_env rs) = ''system''"
  "json_loads (example_env rs) = example_loads"
  "runtime (example_env rs) = example_rt"
  by (simp_all add: example_env_def)

lemma example_call:
  assumes "requests st < length rs" "rs ! requests st = Text t"
  shows "call_claude (example_env rs) system msg st
           = (Inr t, st\<lparr>calls := calls st @ [msg], requests := Suc (requests st)\<rparr>)"
  using assms by (simp add: call_claude_def example_env_def Let_def)

lemma clean_plain:
  "clean_json_response ''[{\"level\":\"Pillar\"}]'' = ''[{\"level\":\"Pillar\"}]''"
  "clean_json_response ''{\"a\":1}'' = ''{\"a\":1}''"
  "clean_json_response ''[]'' = ''[]''"
  "clean_json_response ''hello'' = ''hello''"
  "clean_json_response ''[{\"a\":1}]'' = ''[{\"a\":1}]''"
  "clean_json_response ''[{\"c\":3}]'' = ''[{\"c\":3}]''"
  "clean_json_response ''[{\"a\":1},{\"b\"'' = ''[{\"a\":1},{\"b\"''"
  by (simp_all add: clean_json_response_def strip_def lstrip_def rstrip_def is_space_def
      sub_open_fence_def sub_close_fence_def startswith_def endswith_def)

lemma example_parse:
  "parse_json (example_env rs) ''[{\"level\":\"Pillar\"}]''
     = Some [JDict [(''level'', JStr ''Pillar'')]]"
  "parse_json (example_env rs) ''{\"a\":1}'' = None"
  "parse_json (example_env rs) ''[]'' = Some []"
  "parse_json (example_env rs) ''hello'' = None"
  "parse_json (example_env rs) ''[{\"a\":1}]'' = Some [JDict [(''a'', JInt 1)]]"
  "parse_json (example_env rs) ''[{\"c\":3}]'' = Some [JDict [(''c'', JInt 3)]]"
  "parse_json (example_env rs) ''[{\"a\":1},{\"b\"'' = None"
  by (simp_all add: parse_json_def clean_plain example_loads_def)

text \<open>
  Claim C9. When the first answer is empty or white space only, \<^verbatim>\<open>json.loads\<close> rejects
  the empty text (as it does), and the repair call returns a text that decodes as a
  JSON array, \<^verbatim>\<open>generate_topic_map\<close> ends with the \<^verbatim>\<open>IndexError\<close> of
  \<^verbatim>\<open>raw_response.rstrip()[-1]\<close>, which is none of the failures it raises itself.
\<close>

theorem C9_empty_response_index_error:
  assumes "ANTHROPIC_API_KEY env \<noteq> []"
    and "call_claude env (TOPIC_MAP_SYSTEM_PROMPT env) (user_prompt env a) st = (Inr raw, st1)"
    and "\<forall>c\<in>set raw. is_space c"
    and "json_loads env [] = Inl e"
    and "call_claude env (TOPIC_MAP_SYSTEM_PROMPT env)
           (JSON_FIX_PROMPT_format e (take 8000 raw)) st1 = (Inr fix_response, st2)"
    and "parse_json env fix_response = Some entries"
  shows "generate_topic_map env a st = (Inl IndexError, st2)"
proof -
  note w = clean_whitespace [OF assms(3)]
  have p: "parse_json env raw = None"
    by (simp add: parse_json_def w(2) assms(4))
  have "parse_with_repair env raw st1 = (Inr entries, st2)"
    by (simp add: parse_with_repair_def p w(2) assms(4,5,6))
  from generate_staged [OF assms(1,2) this] show ?thesis
    by (simp add: continue_if_truncated_def w(1))
qed

theorem C9_empty_response_index_error_witness:
  "generate_topic_map (example_env [Text [CHR '' '', CHR 0x0A], Text ''[]'']) example_args st0
     = (Inl IndexError,
        \<lparr>requests = 2,
         calls = [user_prompt (example_env [Text [CHR '' '', CHR 0x0A], Text ''[]'']) example_args,
                  JSON_FIX_PROMPT_format ''Expecting value: line 1 column 1 (char 0)''
                    [CHR '' '', CHR 0x0A]],
         sleeps = []\<rparr>)"
proof -
  let ?env = "example_env [Text [CHR '' '', CHR 0x0A], Text ''[]'']"
  let ?st1 = "\<lparr>requests = 1, calls = [user_prompt ?env example_args], sleeps = []\<rparr>"
  let ?fix = "JSON_FIX_PROMPT_format ''Expecting value: line 1 column 1 (char 0)''
                (take 8000 [CHR '' '', CHR 0x0A])"
  let ?st2 = "\<lparr>requests = 2, calls = [user_prompt ?env example_args, ?fix], sleeps = []\<rparr>"
  have 1: "ANTHROPIC_API_KEY ?env \<noteq> []" by simp
  have 2: "call_claude ?env (TOPIC_MAP_SYSTEM_PROMPT ?env) (user_prompt ?env example_args) st0
             = (Inr [CHR '' '', CHR 0x0A], ?st1)"
    by (subst example_call [where t = "[CHR '' '', CHR 0x0A]"]) (simp_all add: st0_def)
  have 3: "\<forall>c\<in>set [CHR '' '', CHR 0x0A]. is_space c" by (simp add: is_space_def)
  have 4: "json_loads ?env [] = Inl ''Expecting value: line 1 column 1 (char 0)''"
    by (simp add: example_loads_def)
  have 5: "call_claude ?env (TOPIC_MAP_SYSTEM_PROMPT ?env) ?fix ?st1 = (Inr ''[]'', ?st2)"
    by (subst example_call [where t = "''[]''"]) simp_all
  have 6: "parse_json ?env ''[]'' = Some []" by (rule example_parse)
  show ?thesis
    using C9_empty_response_index_error [OF 1 2 3 4 5 6] by simp
qed

text \<open>
  Claim C6, the failing input. The first answer \<^verbatim>\<open>{"a":1}\<close> is valid JSON but no array:
  \<^verbatim>\<open>_parse_json\<close> returns \<^verbatim>\<open>None\<close>, the second \<^verbatim>\<open>json.loads\<close> does not raise, no
  repair call is made (one request, one call), and the run ends with the message of
  the parse failure.
\<close>

theorem C6_no_repair_for_non_array:
  "parse_json (example_env [Text ''{\"a\":1}'']) ''{\"a\":1}'' = None
   \<and> generate_topic_map (example_env [Text ''{\"a\":1}'']) example_args st0
     = (Inl (ValueError parse_failed_msg),
        \<lparr>requests = 1,
         calls = [user_prompt (example_env [Text ''{\"a\":1}'']) example_args],
         sleeps = []\<rparr>)"
proof -
  let ?env = "example_env [Text ''{\"a\":1}'']"
  have 2: "call_claude ?env ''system'' (user_prompt ?env example_args) st0
             = (Inr ''{\"a\":1}'',
                \<lparr>requests = 1, calls = [user_prompt ?env example_args], sleeps = []\<rparr>)"
    by (subst example_call [where t = "''{\"a\":1}''"]) (simp_all add: st0_def)
  have 3: "example_loads (clean_json_response ''{\"a\":1}'') = Inr (JDict [(''a'', JInt 1)])"
    by (simp add: clean_plain example_loads_def)
  show ?thesis
    by (simp add: generate_topic_map_def 2 parse_with_repair_def example_parse 3)
qed


text \<open>
  Where the cleaned first answer does not decode at all, the repair works as the
  comment says: one more call, whose prompt holds the decoder's message and the first
  8000 characters of the answer; when the repair answer is no list either, the run
  ends with the parse failure, whose message differs from that of a validation failure.
\<close>

lemma repair_call_on_decode_error:
  assumes "ANTHROPIC_API_KEY env \<noteq> []"
    and "call_claude env (TOPIC_MAP_SYSTEM_PROMPT env) (user_prompt env a) st = (Inr raw, st1)"
    and "json_loads env (clean_json_response raw) = Inl e"
    and "call_claude env (TOPIC_MAP_SYSTEM_PROMPT env)
           (JSON_FIX_PROMPT_format e (take 8000 raw)) st1 = (Inr fix_response, st2)"
    and "parse_json env fix_response = None"
  shows "generate_topic_map env a st = (Inl (ValueError parse_failed_msg), st2)"
    and "calls st2 = calls st1 @ [JSON_FIX_PROMPT_format e (take 8000 raw)]"
    and "\<exists>p q. JSON_FIX_PROMPT_format e (take 8000 raw) = p @ e @ q @ take 8000 raw"
    and "parse_failed_msg \<noteq> validation_failed_msg critical_errors"
proof -
  have p: "parse_json env raw = None" by (simp add: parse_json_def assms(3))
  show "generate_topic_map env a st = (Inl (ValueError parse_failed_msg), st2)"
    by (simp add: generate_topic_map_def assms parse_with_repair_def p)
  show "calls st2 = calls st1 @ [JSON_FIX_PROMPT_format e (take 8000 raw)]"
    using call_claude_calls [of env "TOPIC_MAP_SYSTEM_PROMPT env"
        "JSON_FIX_PROMPT_format e (take 8000 raw)" st1] assms(4)
    by simp
  show "\<exists>p q. JSON_FIX_PROMPT_format e (take 8000 raw) = p @ e @ q @ take 8000 raw"
    unfolding JSON_FIX_PROMPT_format_def by (metis append.assoc)
  show "parse_failed_msg \<noteq> validation_failed_msg critical_errors"
    by (simp add: parse_failed_msg_def validation_failed_msg_def)
qed

lemma rfind_closer: "rfind (body @ ''}]'') (CHR ''}'') = int (length body)"
  by (induction body) (simp_all add: Let_def)

lemma continue_calls:
  assumes "rstrip raw \<noteq> []" "last (rstrip raw) \<noteq> CHR '']''"
  shows "calls (snd (continue_if_truncated env raw entries st))
           = calls st @ [CONTINUATION_PROMPT_format (drop (length raw - 500) raw)]"
proof -
  let ?p = "CONTINUATION_PROMPT_format (drop (length raw - 500) raw)"
  obtain r st' where c: "call_claude env (TOPIC_MAP_SYSTEM_PROMPT env) ?p st = (r, st')"
    by (cases "call_claude env (TOPIC_MAP_SYSTEM_PROMPT env) ?p st")
  have "calls st' = calls st @ [?p]"
    using call_claude_calls [of env "TOPIC_MAP_SYSTEM_PROMPT env" ?p st] c by simp
  moreover have "snd (continue_if_truncated env raw entries st) = st'"
    using assms c
    by (cases r) (simp_all add: continue_if_truncated_def split: option.splits)
  ultimately show ?thesis by simp
qed

lemma generate_snd:
  assumes "ANTHROPIC_API_KEY env \<noteq> []"
    and "call_claude env (TOPIC_MAP_SYSTEM_PROMPT env) (user_prompt env a) st = (Inr raw, st1)"
    and "parse_with_repair env raw st1 = (Inr parsed, st2)"
  shows "snd (generate_topic_map env a st) = snd (continue_if_truncated env raw parsed st2)"
  unfolding generate_staged [OF assms]
  by (cases "continue_if_truncated env raw parsed st2") (auto split: sum.splits)

text \<open>
  Claim C5, as amended. Let the decoding phase (the first answer or its repair) have
  produced an entry list, and let the first answer, trimmed on the right, be non-empty
  and not end with \<^verbatim>\<open>]\<close>. Then exactly one more call is made, with the continuation
  prompt on the last 500 characters. If that call returns a text that parses into a
  non-empty list \<open>cont\<close>: when the cleaned answer has a \<^verbatim>\<open>}\<close> after its first
  character and the text up to the last \<^verbatim>\<open>}\<close> plus \<^verbatim>\<open>]\<close> decodes as a list \<open>base\<close>,
  the entry list handed to the validation is \<open>base\<close> followed by \<open>cont\<close>; when that
  text does not decode, it is \<open>cont\<close> if \<open>cont\<close> has more than ten entries and the
  earlier parse result otherwise; when there is no such \<^verbatim>\<open>}\<close>, it is the earlier
  parse result.
\<close>

theorem C5_continuation_merge:
  assumes "ANTHROPIC_API_KEY env \<noteq> []"
    and "call_claude env (TOPIC_MAP_SYSTEM_PROMPT env) (user_prompt env a) st = (Inr raw, st1)"
    and "parse_with_repair env raw st1 = (Inr entries, st2)"
    and "rstrip raw \<noteq> []"
    and "last (rstrip raw) \<noteq> CHR '']''"
  shows "calls (snd (generate_topic_map env a st))
           = calls st2 @ [CONTINUATION_PROMPT_format (drop (length raw - 500) raw)]
     \<and> (call_claude env (TOPIC_MAP_SYSTEM_PROMPT env)
            (CONTINUATION_PROMPT_format (drop (length raw - 500) raw)) st2
            = (Inr continuation, st3)
          \<and> parse_json env continuation = Some cont \<and> cont \<noteq> []
        \<longrightarrow>
          (0 < rfind (clean_json_response raw) (CHR ''}'')
             \<and> json_loads env
                  (take (nat (rfind (clean_json_response raw) (CHR ''}'') + 1))
                     (clean_json_response raw) @ '']'') = Inr (JList base)
           \<longrightarrow> generate_topic_map env a st
                  = (validate_and_return (runtime env) (base @ cont), st3)
               \<and> length (base @ cont) = length base + length cont)
        \<and> (0 < rfind (clean_json_response raw) (CHR ''}'')
             \<and> json_loads env
                  (take (nat (rfind (clean_json_response raw) (CHR ''}'') + 1))
                     (clean_json_response raw) @ '']'') = Inl err
           \<longrightarrow> generate_topic_map env a st
                  = (validate_and_return (runtime env)
                       (if 10 < length cont then cont else entries), st3))
        \<and> (rfind (clean_json_response raw) (CHR ''}'') \<le> 0
           \<longrightarrow> generate_topic_map env a st
                  = (validate_and_return (runtime env) entries, st3)))"
proof -
  have "calls (snd (generate_topic_map env a st))
           = calls st2 @ [CONTINUATION_PROMPT_format (drop (length raw - 500) raw)]"
    unfolding generate_snd [OF assms(1,2,3)] by (rule continue_calls [OF assms(4,5)])
  moreover have "generate_topic_map env a st
       = (validate_and_return (runtime env) (salvage env raw entries cont), st3)"
    if "call_claude env (TOPIC_MAP_SYSTEM_PROMPT env)
            (CONTINUATION_PROMPT_format (drop (length raw - 500) raw)) st2
            = (Inr continuation, st3)"
      "parse_json env continuation = Some cont" "cont \<noteq> []"
    unfolding generate_staged [OF assms(1,2,3)]
    using that assms(4,5) by (simp add: continue_if_truncated_def)
  ultimately show ?thesis
    by (auto simp: salvage_def Let_def)
qed

lemma rstrip_plain:
  "rstrip ''hello'' = ''hello''"
  "rstrip ''[{\"a\":1},{\"b\"'' = ''[{\"a\":1},{\"b\"''"
  by (simp_all add: rstrip_def is_space_def)

text \<open>
  Claim C5 as stated fails: the first answer \<^verbatim>\<open>hello\<close> does not end with \<^verbatim>\<open>]\<close>, it does
  not decode and neither does the repair answer, and the run ends with the parse
  failure after two calls, the first prompt and the repair prompt: no continuation
  call is made.
\<close>

theorem C5_continuation_merge_counterexample:
  "last (rstrip ''hello'') \<noteq> CHR '']''
   \<and> generate_topic_map (example_env [Text ''hello'', Text ''hello'']) example_args st0
     = (Inl (ValueError parse_failed_msg),
        \<lparr>requests = 2,
         calls = [user_prompt (example_env [Text ''hello'', Text ''hello'']) example_args,
                  JSON_FIX_PROMPT_format ''Expecting value: line 1 column 1 (char 0)'' ''hello''],
         sleeps = []\<rparr>)"
proof -
  let ?env = "example_env [Text ''hello'', Text ''hello'']"
  let ?st1 = "\<lparr>requests = Suc 0, calls = [user_prompt ?env example_args], sleeps = []\<rparr>"
  let ?fix = "JSON_FIX_PROMPT_format ''Expecting value: line 1 column 1 (char 0)'' ''hello''"
  have 2: "call_claude ?env ''system'' (user_prompt ?env example_args) st0 = (Inr ''hello'', ?st1)"
    by (subst example_call [where t = "''hello''"]) (simp_all add: st0_def)
  have 3: "example_loads (clean_json_response ''hello'')
             = Inl ''Expecting value: line 1 column 1 (char 0)''"
    by (simp add: clean_plain example_loads_def)
  have 4: "call_claude ?env ''system'' ?fix ?st1
             = (Inr ''hello'',
                \<lparr>requests = 2, calls = [user_prompt ?env example_args, ?fix], sleeps = []\<rparr>)"
    by (subst example_call [where t = "''hello''"]) simp_all
  show ?thesis
    by (simp add: generate_topic_map_def 2 parse_with_repair_def example_parse 3 4 rstrip_plain)
qed

theorem C5_continuation_merge_witness:
  "generate_topic_map
     (example_env [Text ''[{\"a\":1},{\"b\"'', Text ''[{\"a\":1}]'', Text ''[{\"c\":3}]''])
     example_args st0
   = (validate_and_return example_rt [JDict [(''a'', JInt 1)], JDict [(''c'', JInt 3)]],
      \<lparr>requests = 3,
       calls = [user_prompt
                  (example_env [Text ''[{\"a\":1},{\"b\"'', Text ''[{\"a\":1}]'',
                     Text ''[{\"c\":3}]'']) example_args,
                JSON_FIX_PROMPT_format
                  (''Expecting '' @ quote @ '':'' @ quote
                     @ '' delimiter: line 1 column 14 (char 13)'')
                  ''[{\"a\":1},{\"b\"'',
                CONTINUATION_PROMPT_format ''[{\"a\":1},{\"b\"''],
       sleeps = []\<rparr>)"
proof -
  let ?raw = "''[{\"a\":1},{\"b\"''"
  let ?env = "example_env [Text ?raw, Text ''[{\"a\":1}]'', Text ''[{\"c\":3}]'']"
  let ?up = "user_prompt ?env example_args"
  let ?msg = "''Expecting '' @ quote @ '':'' @ quote @ '' delimiter: line 1 column 14 (char 13)''"
  let ?fix = "JSON_FIX_PROMPT_format ?msg (take 8000 ?raw)"
  let ?cont = "CONTINUATION_PROMPT_format (drop (length ?raw - 500) ?raw)"
  let ?st1 = "\<lparr>requests = 1, calls = [?up], sleeps = []\<rparr>"
  let ?st2 = "\<lparr>requests = 2, calls = [?up, ?fix], sleeps = []\<rparr>"
  let ?st3 = "\<lparr>requests = 3, calls = [?up, ?fix, ?cont], sleeps = []\<rparr>"
  have 1: "ANTHROPIC_API_KEY ?env \<noteq> []" by simp
  have 2: "call_claude ?env (TOPIC_MAP_SYSTEM_PROMPT ?env) ?up st0 = (Inr ?raw, ?st1)"
    by (subst example_call [where t = ?raw]) (simp_all add: st0_def)
  have l: "example_loads (clean_json_response ?raw) = Inl ?msg"
    by (simp add: clean_plain example_loads_def)
  have f: "call_claude ?env ''system'' ?fix ?st1 = (Inr ''[{\"a\":1}]'', ?st2)"
    by (subst example_call [where t = "''[{\"a\":1}]''"]) simp_all
  have 3: "parse_with_repair ?env ?raw ?st1 = (Inr [JDict [(''a'', JInt 1)]], ?st2)"
    unfolding parse_with_repair_def
    by (simp only: example_parse example_env_fields l f option.simps sum.simps prod.simps)
  have 4: "rstrip ?raw \<noteq> []" by (simp add: rstrip_plain)
  have 5: "last (rstrip ?raw) \<noteq> CHR '']''" by (simp add: rstrip_plain)
  have c: "call_claude ?env (TOPIC_MAP_SYSTEM_PROMPT ?env) ?cont ?st2
             = (Inr ''[{\"c\":3}]'', ?st3)"
    by (subst example_call [where t = "''[{\"c\":3}]''"]) simp_all
  have p: "parse_json ?env ''[{\"c\":3}]'' = Some [JDict [(''c'', JInt 3)]]"
    by (rule example_parse)
  have r: "rfind (clean_json_response ?raw) (CHR ''}'') = 7"
    by (simp add: clean_plain Let_def)
  have s: "json_loads ?env (take (nat (rfind (clean_json_response ?raw) (CHR ''}'') + 1))
                     (clean_json_response ?raw) @ '']'') = Inr (JList [JDict [(''a'', JInt 1)]])"
    unfolding r by (simp add: clean_plain example_loads_def)
  show ?thesis
    using C5_continuation_merge [OF 1 2 3 4 5, of "''[{\"c\":3}]''" ?st3
        "[JDict [(''c'', JInt 3)]]" "[JDict [(''a'', JInt 1)]]" "[]"] c p r s
    by simp
qed

lemma rfind_absent: "c \<notin> set xs \<Longrightarrow> rfind xs c = - 1"
  by (induction xs) (auto simp: Let_def)

lemma rfind_last:
  "c \<notin> set rest \<Longrightarrow> rfind (body @ c # rest) c = int (length body)"
  by (induction body) (auto simp: Let_def rfind_absent)

lemma validate_and_return_Inr: "validate_and_return rt entries = Inr r \<Longrightarrow> r = entries"
  by (auto simp: validate_and_return_def and_then_def Let_def split: if_splits sum.splits)

text \<open>
  Claim C10, as amended. Let the first answer, trimmed on the right, end with a
  backquote, and let its cleaned text be a well-formed JSON array that ends with an
  object: a \<^verbatim>\<open>}\<close>, then white space only, then the closing \<^verbatim>\<open>]\<close>, where the decoder
  reads the array without that white space as the same list. Then the first decoding
  succeeds without repair, a continuation call is made all the same, the salvage gives the
  complete original list, and when the continuation parses as a non-empty list the
  original entries followed by the continuation entries are handed to the validation
  and are what is returned whenever the call returns.
\<close>

theorem C10_fenced_array_continued:
  assumes "ANTHROPIC_API_KEY env \<noteq> []"
    and "call_claude env (TOPIC_MAP_SYSTEM_PROMPT env) (user_prompt env a) st = (Inr raw, st1)"
    and "rstrip raw \<noteq> []"
    and "last (rstrip raw) = CHR 0x60"
    and "clean_json_response raw = body @ CHR ''}'' # ws @ '']''"
    and "body \<noteq> []"
    and "\<forall>c\<in>set ws. is_space c"
    and "json_loads env (clean_json_response raw) = Inr (JList original)"
    and "json_loads env (body @ ''}]'') = json_loads env (clean_json_response raw)"
    and "call_claude env (TOPIC_MAP_SYSTEM_PROMPT env)
           (CONTINUATION_PROMPT_format (drop (length raw - 500) raw)) st1
           = (Inr continuation, st2)"
    and "parse_json env continuation = Some extra"
    and "extra \<noteq> []"
  shows "parse_with_repair env raw st1 = (Inr original, st1)
     \<and> calls st2 = calls st1 @ [CONTINUATION_PROMPT_format (drop (length raw - 500) raw)]
     \<and> salvage env raw original extra = original @ extra
     \<and> generate_topic_map env a st
          = (validate_and_return (runtime env) (original @ extra), st2)
     \<and> (fst (generate_topic_map env a st) = Inr r \<longrightarrow> r = original @ extra)"
proof -
  have p: "parse_with_repair env raw st1 = (Inr original, st1)"
    by (simp add: parse_with_repair_def parse_json_def assms(8))
  have c: "calls st2 = calls st1 @ [CONTINUATION_PROMPT_format (drop (length raw - 500) raw)]"
    using call_claude_calls [of env "TOPIC_MAP_SYSTEM_PROMPT env"
        "CONTINUATION_PROMPT_format (drop (length raw - 500) raw)" st1] assms(10)
    by simp
  have "CHR ''}'' \<notin> set (ws @ '']'')"
    using assms(7) not_space_comma(3) by auto
  then have r: "rfind (clean_json_response raw) (CHR ''}'') = int (length body)"
    unfolding assms(5) by (rule rfind_last)
  have t: "take (nat (int (length body) + 1)) (clean_json_response raw) @ '']'' = body @ ''}]''"
    unfolding assms(5) by (simp add: nat_add_distrib)
  have s: "salvage env raw original extra = original @ extra"
    using assms(6) by (simp add: salvage_def Let_def r t assms(9) assms(8))
  have l: "last (rstrip raw) \<noteq> CHR '']''" using assms(4) by simp
  have g: "generate_topic_map env a st
          = (validate_and_return (runtime env) (original @ extra), st2)"
    unfolding generate_staged [OF assms(1,2) p]
    using assms(3,10,11,12) l by (simp add: continue_if_truncated_def s)
  have "fst (generate_topic_map env a st) = Inr r \<Longrightarrow> r = original @ extra"
    unfolding g by (simp add: validate_and_return_Inr)
  with p c s g show ?thesis by blast
qed

lemma clean_fenced_examples:
  "clean_json_response (''```json'' @ NL @ ''[]'' @ NL @ ''```'') = ''[]''"
  "clean_json_response (''```json'' @ NL @ ''[{\"a\":1},5]'' @ NL @ ''```'') = ''[{\"a\":1},5]''"
  "clean_json_response (''```json'' @ NL @ ''[{\"a\":1} ]'' @ NL @ ''```'') = ''[{\"a\":1} ]''"
  by (simp_all add: clean_json_response_def strip_def lstrip_def rstrip_def is_space_def NL_def
      sub_open_fence_def sub_close_fence_def startswith_def endswith_def)

lemma rstrip_fenced: "rstrip (xs @ ''```'') = xs @ ''```''"
  using rstrip_snoc [of "CHR 0x60" "xs @ [CHR 0x60, CHR 0x60]"] by simp

text \<open>
  Claim C10 as stated fails in two ways. The fenced empty array \<^verbatim>\<open>[]\<close> is complete and
  well formed, yet with a continuation of one entry nothing is salvaged (there is no
  \<^verbatim>\<open>}\<close>), the entry list stays empty and the run ends with \<^verbatim>\<open>No topic map entries were
  generated\<close>. And for the fenced array \<^verbatim>\<open>[{"a":1},5]\<close>, whose last element is no
  object, the salvage cuts after the last \<^verbatim>\<open>}\<close> and loses the element 5.
\<close>

theorem C10_fenced_array_continued_counterexample:
  "parse_json (example_env []) (''```json'' @ NL @ ''[]'' @ NL @ ''```'') = Some []
   \<and> generate_topic_map
       (example_env [Text (''```json'' @ NL @ ''[]'' @ NL @ ''```''), Text ''[{\"c\":3}]''])
       example_args st0
     = (Inl (ValueError ''No topic map entries were generated.''),
        \<lparr>requests = 2,
         calls = [user_prompt
                    (example_env [Text (''```json'' @ NL @ ''[]'' @ NL @ ''```''),
                       Text ''[{\"c\":3}]'']) example_args,
                  CONTINUATION_PROMPT_format (''```json'' @ NL @ ''[]'' @ NL @ ''```'')],
         sleeps = []\<rparr>)
   \<and> parse_json (example_env []) (''```json'' @ NL @ ''[{\"a\":1},5]'' @ NL @ ''```'')
       = Some [JDict [(''a'', JInt 1)], JInt 5]
   \<and> salvage (example_env []) (''```json'' @ NL @ ''[{\"a\":1},5]'' @ NL @ ''```'')
         [JDict [(''a'', JInt 1)], JInt 5] [JDict [(''c'', JInt 3)]]
       = [JDict [(''a'', JInt 1)], JDict [(''c'', JInt 3)]]"
proof -
  let ?raw = "''```json'' @ NL @ ''[]'' @ NL @ ''```''"
  let ?env = "example_env [Text ?raw, Text ''[{\"c\":3}]'']"
  let ?up = "user_prompt ?env example_args"
  let ?cont = "CONTINUATION_PROMPT_format ?raw"
  let ?st1 = "\<lparr>requests = 1, calls = [?up], sleeps = []\<rparr>"
  let ?st2 = "\<lparr>requests = 2, calls = [?up, ?cont], sleeps = []\<rparr>"
  have p0: "parse_json (example_env rs) ?raw = Some []" for rs
    unfolding parse_json_def clean_fenced_examples by (simp add: example_loads_def)
  have 1: "ANTHROPIC_API_KEY ?env \<noteq> []" by simp
  have 2: "call_claude ?env (TOPIC_MAP_SYSTEM_PROMPT ?env) ?up st0 = (Inr ?raw, ?st1)"
    by (subst example_call [where t = ?raw]) (simp_all add: st0_def)
  have 3: "parse_with_repair ?env ?raw ?st1 = (Inr [], ?st1)"
    unfolding parse_with_repair_def by (simp only: p0 option.simps)
  have d: "drop (length ?raw - 500) ?raw = ?raw" by (simp add: NL_def)
  have r: "rstrip ?raw = ?raw"
    using rstrip_fenced [of "''```json'' @ NL @ ''[]'' @ NL"] by simp
  have l: "rstrip ?raw \<noteq> []" "last (rstrip ?raw) \<noteq> CHR '']''"
    unfolding r by simp_all
  have c: "call_claude ?env (TOPIC_MAP_SYSTEM_PROMPT ?env) ?cont ?st1
             = (Inr ''[{\"c\":3}]'', ?st2)"
    by (subst example_call [where t = "''[{\"c\":3}]''"]) simp_all
  have s: "salvage ?env ?raw [] [JDict [(''c'', JInt 3)]] = []"
    unfolding salvage_def clean_fenced_examples by (simp add: Let_def)
  have 4: "continue_if_truncated ?env ?raw [] ?st1 = (Inr [], ?st2)"
    unfolding continue_if_truncated_def d
    by (simp only: l if_False if_True not_False_eq_True c example_parse s prod.simps sum.simps
        option.simps) simp
  have g: "generate_topic_map ?env example_args st0
             = (Inl (ValueError ''No topic map entries were generated.''), ?st2)"
    unfolding generate_staged [OF 1 2 3] 4 by (simp add: validate_and_return_def)
  have p5: "parse_json (example_env []) (''```json'' @ NL @ ''[{\"a\":1},5]'' @ NL @ ''```'')
       = Some [JDict [(''a'', JInt 1)], JInt 5]"
    unfolding parse_json_def clean_fenced_examples by (simp add: example_loads_def)
  have s5: "salvage (example_env []) (''```json'' @ NL @ ''[{\"a\":1},5]'' @ NL @ ''```'')
         [JDict [(''a'', JInt 1)], JInt 5] [JDict [(''c'', JInt 3)]]
       = [JDict [(''a'', JInt 1)], JDict [(''c'', JInt 3)]]"
    unfolding salvage_def clean_fenced_examples by (simp add: Let_def example_loads_def)
  show ?thesis using p0 g p5 s5 by blast
qed

theorem C10_fenced_array_continued_witness:
  "generate_topic_map
     (example_env [Text (''```json'' @ NL @ ''[{\"a\":1} ]'' @ NL @ ''```''),
        Text ''[{\"c\":3}]''])
     example_args st0
   = (validate_and_return example_rt [JDict [(''a'', JInt 1)], JDict [(''c'', JInt 3)]],
      \<lparr>requests = 2,
       calls = [user_prompt
                  (example_env [Text (''```json'' @ NL @ ''[{\"a\":1} ]'' @ NL @ ''```''),
                     Text ''[{\"c\":3}]'']) example_args,
                CONTINUATION_PROMPT_format (''```json'' @ NL @ ''[{\"a\":1} ]'' @ NL @ ''```'')],
       sleeps = []\<rparr>)"
proof -
  let ?raw = "''```json'' @ NL @ ''[{\"a\":1} ]'' @ NL @ ''```''"
  let ?env = "example_env [Text ?raw, Text ''[{\"c\":3}]'']"
  let ?up = "user_prompt ?env example_args"
  let ?cont = "CONTINUATION_PROMPT_format (drop (length ?raw - 500) ?raw)"
  let ?st1 = "\<lparr>requests = 1, calls = [?up], sleeps = []\<rparr>"
  let ?st2 = "\<lparr>requests = 2, calls = [?up, ?cont], sleeps = []\<rparr>"
  have 1: "ANTHROPIC_API_KEY ?env \<noteq> []" by simp
  have 2: "call_claude ?env (TOPIC_MAP_SYSTEM_PROMPT ?env) ?up st0 = (Inr ?raw, ?st1)"
    by (subst example_call [where t = ?raw]) (simp_all add: st0_def)
  have r: "rstrip ?raw = ?raw"
    using rstrip_fenced [of "''```json'' @ NL @ ''[{\"a\":1} ]'' @ NL"] by simp
  have 3: "rstrip ?raw \<noteq> []" and 4: "last (rstrip ?raw) = CHR 0x60"
    unfolding r by simp_all
  have 5: "clean_json_response ?raw = ''[{\"a\":1'' @ CHR ''}'' # '' '' @ '']''"
    unfolding clean_fenced_examples by simp
  have 6: "''[{\"a\":1'' \<noteq> []" by simp
  have 7: "\<forall>c\<in>set '' ''. is_space c" by (simp add: is_space_def)
  have 8: "json_loads ?env (clean_json_response ?raw) = Inr (JList [JDict [(''a'', JInt 1)]])"
    unfolding clean_fenced_examples by (simp add: example_loads_def)
  have 9: "json_loads ?env (''[{\"a\":1'' @ ''}]'') = json_loads ?env (clean_json_response ?raw)"
    unfolding clean_fenced_examples by (simp add: example_loads_def)
  have 10: "call_claude ?env (TOPIC_MAP_SYSTEM_PROMPT ?env) ?cont ?st1
             = (Inr ''[{\"c\":3}]'', ?st2)"
    by (subst example_call [where t = "''[{\"c\":3}]''"]) simp_all
  have 11: "parse_json ?env ''[{\"c\":3}]'' = Some [JDict [(''c'', JInt 3)]]"
    by (rule example_parse)
  have 12: "[JDict [(''c'', JInt 3)]] \<noteq> []" by simp
  have d: "drop (length ?raw - 500) ?raw = ?raw" by (simp add: NL_def)
  show ?thesis
    using C10_fenced_array_continued [OF 1 2 3 4 5 6 7 8 9 10 11 12] d
    by simp
qed

end
